theory Spec2Isabelle
  imports
    Complex_Main
    "HOL-Library.AList"
    "HOL-Library.Sublist"
    "HOL-Library.Char_ord"
    "HOL-Library.List_Lexorder"
begin

section \<open>The file system and the world the zoo datasets act on\<close>

text \<open>
  \<^verbatim>\<open>fiftyone/zoo/base.py\<close> is glue code: every \<^verbatim>\<open>_download_and_prepare\<close> is a
  sequence of calls into the file system (\<^verbatim>\<open>os\<close>, \<^verbatim>\<open>shutil\<close>) and into
  collaborators that are not part of these sources (\<^verbatim>\<open>eta.core.web\<close>,
  \<^verbatim>\<open>eta.core.utils\<close>, \<^verbatim>\<open>fiftyone.utils.*\<close>). The model is a state-passing one:

  \<^item> a path is absolute and normalised, and is the list of its components
    (\<^verbatim>\<open>"/zoo/lfw/train"\<close> is \<open>[''zoo'', ''lfw'', ''train'']\<close>, the root is \<open>[]\<close>), so
    \<^verbatim>\<open>os.path.join(d, x)\<close> appends a component and \<^verbatim>\<open>os.path.dirname(d)\<close> drops the
    last one;
  \<^item> the file system is a tree of named entries; a file holds its lines of text;
  \<^item> the world is the file system together with the trace of the transport calls
    (downloads, extractions, moves) made so far;
  \<^item> an exception is a value \<open>Inl e\<close>; the world is returned next to it, since an
    exception does not undo what was written before it.

  A leading underscore is not legal in an Isabelle name: \<^verbatim>\<open>_move_dir\<close> is
  \<open>p_move_dir\<close> and \<^verbatim>\<open>_download_and_prepare\<close> is \<open>p_download_and_prepare\<close>.
\<close>

type_synonym path = "string list"

datatype node = File "string list" | Dir "(string \<times> node) list"

datatype error =
    TypeError
  | FileNotFoundError
  | NotADirectoryError
  | IsADirectoryError
  | FileExistsError
  | OSError
  | ShutilError
  | ManualDownloadRequiredError
  | ExternalError string

datatype call =
    Download_google_drive_file string path
  | Extract_zip path bool
  | Shutil_move path path
  | Download_coco_dataset_split path "string option" string bool
  | Move_dir path path
  | Move_file path path
  | Download_lfw_dataset path path bool
  | Wrangle_bdd100k_download path path bool
  | Download_hmdb51_dataset path path int bool
  | Download_ucf101_dataset path path int bool

record world =
  fs :: node
  calls :: "call list"

type_synonym 'a prog = "world \<Rightarrow> (error + 'a) \<times> world"

definition ret :: "'a \<Rightarrow> 'a prog" where
  "ret x w = (Inr x, w)"

definition bindp :: "'a prog \<Rightarrow> ('a \<Rightarrow> 'b prog) \<Rightarrow> 'b prog" where
  "bindp m k w = (case m w of (Inl e, w') \<Rightarrow> (Inl e, w') | (Inr x, w') \<Rightarrow> k x w')"

text \<open>A transport call is logged, then acts on the file system.\<close>

definition transport :: "call \<Rightarrow> (node \<Rightarrow> (error + 'a) \<times> node) \<Rightarrow> 'a prog" where
  "transport c f w = (case f (fs w) of (r, t) \<Rightarrow> (r, \<lparr>fs = t, calls = calls w @ [c]\<rparr>))"

text \<open>A metadata parser reads the file system and leaves the world as it is.\<close>

definition parse :: "(node \<Rightarrow> error + 'a) \<Rightarrow> 'a prog" where
  "parse f w = (f (fs w), w)"

subsection \<open>Paths and lookups\<close>

fun lookup :: "node \<Rightarrow> path \<Rightarrow> node option" where
  "lookup n [] = Some n"
| "lookup (File l) (c # p) = None"
| "lookup (Dir es) (c # p) = (case map_of es c of None \<Rightarrow> None | Some m \<Rightarrow> lookup m p)"

definition path_exists :: "node \<Rightarrow> path \<Rightarrow> bool" where
  "path_exists t p = (lookup t p \<noteq> None)"

definition path_isdir :: "node \<Rightarrow> path \<Rightarrow> bool" where
  "path_isdir t p = (case lookup t p of Some (Dir es) \<Rightarrow> True | _ \<Rightarrow> False)"

definition path_dirname :: "path \<Rightarrow> path" where
  "path_dirname p = butlast p"

text \<open>
  \<^verbatim>\<open>os.path.join(d, split)\<close> with \<^verbatim>\<open>split = None\<close> raises \<^verbatim>\<open>TypeError\<close>; a split name
  is one path component.
\<close>

definition path_join :: "path \<Rightarrow> string option \<Rightarrow> path prog" where
  "path_join d x w = (case x of None \<Rightarrow> (Inl TypeError, w) | Some s \<Rightarrow> (Inr (d @ [s]), w))"

text \<open>
  \<open>set_entry p v t\<close> writes the entry at \<open>p\<close> (\<open>Some n\<close>) or removes it (\<open>None\<close>);
  the parent of \<open>p\<close> has to be a directory, otherwise nothing changes.
\<close>

fun set_entry :: "path \<Rightarrow> node option \<Rightarrow> node \<Rightarrow> node" where
  "set_entry [] v t = (case v of None \<Rightarrow> t | Some n \<Rightarrow> n)"
| "set_entry (c # p) v (File l) = File l"
| "set_entry (c # p) v (Dir es) =
     (if p = [] then
        Dir (case v of None \<Rightarrow> AList.delete c es | Some n \<Rightarrow> AList.update c n es)
      else
        (case map_of es c of
           None \<Rightarrow> Dir es
         | Some m \<Rightarrow> Dir (AList.update c (set_entry p v m) es)))"

text \<open>\<^verbatim>\<open>os.makedirs\<close>: every missing directory on the way is created; a file in the way fails.\<close>

fun makedirs :: "path \<Rightarrow> node \<Rightarrow> node option" where
  "makedirs [] (File l) = None"
| "makedirs [] (Dir es) = Some (Dir es)"
| "makedirs (c # p) (File l) = None"
| "makedirs (c # p) (Dir es) =
     (case makedirs p (case map_of es c of None \<Rightarrow> Dir [] | Some m \<Rightarrow> m) of
        None \<Rightarrow> None
      | Some m' \<Rightarrow> Some (Dir (AList.update c m' es)))"

subsection \<open>\<^verbatim>\<open>os.rename\<close>, \<^verbatim>\<open>shutil.move\<close>, \<^verbatim>\<open>os.listdir\<close>\<close>

text \<open>
  The standard library is not part of the sources; these definitions follow its
  documented behaviour on a POSIX system without symbolic links.

  \<^verbatim>\<open>os.rename(src, dst)\<close>: \<open>src\<close> has to exist, the parent of \<open>dst\<close> has to be a
  directory, a directory cannot be renamed into itself, a file replaces a file, a
  directory replaces an empty directory only.
\<close>

definition os_rename :: "path \<Rightarrow> path \<Rightarrow> node \<Rightarrow> error + node" where
  "os_rename src dst t =
     (case lookup t src of
        None \<Rightarrow> Inl FileNotFoundError
      | Some n \<Rightarrow>
          if src = [] \<or> dst = [] then Inl OSError
          else if src = dst then Inr t
          else if prefix src dst then Inl OSError
          else if \<not> path_isdir t (butlast dst) then
            Inl (if path_exists t (butlast dst) then NotADirectoryError else FileNotFoundError)
          else
            (case (n, lookup t dst) of
               (_, None) \<Rightarrow> Inr (set_entry dst (Some n) (set_entry src None t))
             | (File l, Some (File l')) \<Rightarrow> Inr (set_entry dst (Some n) (set_entry src None t))
             | (File l, Some (Dir ds)) \<Rightarrow> Inl IsADirectoryError
             | (Dir es, Some (File l')) \<Rightarrow> Inl NotADirectoryError
             | (Dir es, Some (Dir ds)) \<Rightarrow>
                 if ds = [] then Inr (set_entry dst (Some n) (set_entry src None t))
                 else Inl OSError))"

text \<open>
  \<^verbatim>\<open>shutil.move\<close> tries \<^verbatim>\<open>os.rename(src, real_dst)\<close>; when that fails and \<open>src\<close> is a
  directory, it refuses to move a directory into itself and otherwise copies the tree
  (\<^verbatim>\<open>copytree\<close>, which creates the missing parents of the target and fails when the target
  exists) and removes the source; when \<open>src\<close> is a file, the copy fails where the rename
  failed.
\<close>

definition move_to :: "path \<Rightarrow> path \<Rightarrow> node \<Rightarrow> error + node" where
  "move_to src real_dst t =
     (case os_rename src real_dst t of
        Inr t' \<Rightarrow> Inr t'
      | Inl e \<Rightarrow>
          (case lookup t src of
             Some (Dir es) \<Rightarrow>
               if prefix src real_dst then Inl ShutilError
               else if path_exists t real_dst then Inl FileExistsError
               else
                 (case makedirs (butlast real_dst) t of
                    None \<Rightarrow> Inl NotADirectoryError
                  | Some t1 \<Rightarrow> Inr (set_entry src None (set_entry real_dst (Some (Dir es)) t1)))
           | _ \<Rightarrow> Inl e))"

text \<open>
  \<^verbatim>\<open>shutil.move(src, dst)\<close>: when \<open>dst\<close> is an existing directory the source is moved
  inside it, under its own name, and an entry of that name already there is an error;
  otherwise the source is renamed to \<open>dst\<close> itself.
\<close>

definition shutil_move_fs :: "path \<Rightarrow> path \<Rightarrow> node \<Rightarrow> error + node" where
  "shutil_move_fs src dst t =
     (if src = [] then Inl OSError
      else if path_isdir t dst then
        (if src = dst then os_rename src dst t
         else if path_exists t (dst @ [last src]) then Inl ShutilError
         else move_to src (dst @ [last src]) t)
      else move_to src dst t)"

definition shutil_move :: "path \<Rightarrow> path \<Rightarrow> unit prog" where
  "shutil_move src dst w =
     (case shutil_move_fs src dst (fs w) of
        Inl e \<Rightarrow> (Inl e, w\<lparr>calls := calls w @ [Shutil_move src dst]\<rparr>)
      | Inr t \<Rightarrow> (Inr (), \<lparr>fs = t, calls = calls w @ [Shutil_move src dst]\<rparr>))"

definition os_listdir :: "path \<Rightarrow> string list prog" where
  "os_listdir p w =
     (case lookup (fs w) p of
        None \<Rightarrow> (Inl FileNotFoundError, w)
      | Some (File l) \<Rightarrow> (Inl NotADirectoryError, w)
      | Some (Dir es) \<Rightarrow> (Inr (map fst es), w))"

subsection \<open>\<^verbatim>\<open>_move_dir\<close>\<close>

text \<open>
  \<^verbatim>\<open>
  def _move_dir(src, dst):
      for f in os.listdir(src):
          shutil.move(os.path.join(src, f), dst)
  \<close>
  The loop stops at the first exception.
\<close>

fun move_each :: "path \<Rightarrow> path \<Rightarrow> string list \<Rightarrow> unit prog" where
  "move_each src dst [] w = (Inr (), w)"
| "move_each src dst (f # names) w =
     (case shutil_move (src @ [f]) dst w of
        (Inl e, w') \<Rightarrow> (Inl e, w')
      | (Inr u, w') \<Rightarrow> move_each src dst names w')"

definition p_move_dir :: "path \<Rightarrow> path \<Rightarrow> unit prog" where
  "p_move_dir src dst = bindp (os_listdir src) (\<lambda>names. move_each src dst names)"

section \<open>The collaborators\<close>

text \<open>
  The functions of \<^verbatim>\<open>eta.core.web\<close>, \<^verbatim>\<open>eta.core.utils\<close> and \<^verbatim>\<open>fiftyone.utils.*\<close> that
  \<^verbatim>\<open>base.py\<close> calls are parameters of the model: a transport function maps the file
  system to a result and a new file system, a metadata parser only reads it. Every
  theorem below that quantifies over \<open>e\<close> holds whatever these functions do.
  \<^verbatim>\<open>load_coco_detection_annotations\<close> returns a 5-tuple of which the code keeps the
  classes and the images.
\<close>

datatype importer =
    FiftyOneDatasetImporter
  | FiftyOneVideoLabelsDatasetImporter
  | ImageClassificationDirectoryTreeImporter
  | VideoClassificationDirectoryTreeImporter
  | BDDDatasetImporter

record env =
  download_google_drive_file :: "string \<Rightarrow> path \<Rightarrow> node \<Rightarrow> (error + unit) \<times> node"
  extract_zip :: "path \<Rightarrow> bool \<Rightarrow> node \<Rightarrow> (error + unit) \<times> node"
  download_coco_dataset_split ::
    "path \<Rightarrow> string option \<Rightarrow> string \<Rightarrow> bool \<Rightarrow> node \<Rightarrow> (error + path \<times> path) \<times> node"
  move_dir :: "path \<Rightarrow> path \<Rightarrow> node \<Rightarrow> (error + unit) \<times> node"
  move_file :: "path \<Rightarrow> path \<Rightarrow> node \<Rightarrow> (error + unit) \<times> node"
  load_coco_detection_annotations :: "path \<Rightarrow> node \<Rightarrow> error + string list \<times> string list"
  download_lfw_dataset :: "path \<Rightarrow> path \<Rightarrow> bool \<Rightarrow> node \<Rightarrow> (error + unit) \<times> node"
  wrangle_bdd100k_download :: "path \<Rightarrow> path \<Rightarrow> bool \<Rightarrow> node \<Rightarrow> (error + unit) \<times> node"
  download_hmdb51_dataset :: "path \<Rightarrow> path \<Rightarrow> int \<Rightarrow> bool \<Rightarrow> node \<Rightarrow> (error + unit) \<times> node"
  download_ucf101_dataset :: "path \<Rightarrow> path \<Rightarrow> int \<Rightarrow> bool \<Rightarrow> node \<Rightarrow> (error + unit) \<times> node"
  get_classes :: "importer \<Rightarrow> path \<Rightarrow> node \<Rightarrow> error + string list"
  get_num_samples :: "importer \<Rightarrow> path \<Rightarrow> node \<Rightarrow> error + int"

section \<open>The zoo datasets of \<^verbatim>\<open>fiftyone/zoo/base.py\<close>\<close>

datatype dataset_type =
    FiftyOneDataset
  | FiftyOneVideoLabelsDataset
  | COCODetectionDataset
  | ImageClassificationDirectoryTree
  | BDDDataset
  | VideoClassificationDirectoryTree

text \<open>What \<^verbatim>\<open>_download_and_prepare\<close> returns: \<^verbatim>\<open>(dataset_type, num_samples, classes)\<close>.\<close>

type_synonym result = "dataset_type \<times> int \<times> string list option"

text \<open>
  A dataset instance with its constructor arguments: \<^verbatim>\<open>CityscapesDataset(fine_annos,
  coarse_annos, person_annos)\<close>, \<^verbatim>\<open>BDD100KDataset(source_dir, copy_files)\<close>,
  \<^verbatim>\<open>HMDB51Dataset(fold)\<close>, \<^verbatim>\<open>UCF101Dataset(fold)\<close>.
\<close>

datatype dataset =
    QuickstartDataset
  | VideoQuickstartDataset
  | COCO2014Dataset
  | COCO2017Dataset
  | LabeledFacesInTheWildDataset
  | CityscapesDataset bool bool bool
  | BDD100KDataset "path option" bool
  | HMDB51Dataset int
  | UCF101Dataset int

fun name :: "dataset \<Rightarrow> string" where
  "name QuickstartDataset = ''quickstart''"
| "name VideoQuickstartDataset = ''quickstart-video''"
| "name COCO2014Dataset = ''coco-2014-segmentation''"
| "name COCO2017Dataset = ''coco-2017-segmentation''"
| "name LabeledFacesInTheWildDataset = ''lfw''"
| "name (CityscapesDataset fine_annos coarse_annos person_annos) = ''cityscapes''"
| "name (BDD100KDataset source_dir copy_files) = ''bdd100k''"
| "name (HMDB51Dataset fold_no) = ''hmdb51''"
| "name (UCF101Dataset fold_no) = ''ucf101''"

fun supported_splits :: "dataset \<Rightarrow> string list option" where
  "supported_splits QuickstartDataset = None"
| "supported_splits VideoQuickstartDataset = None"
| "supported_splits COCO2014Dataset = Some [''test'', ''train'', ''validation'']"
| "supported_splits COCO2017Dataset = Some [''test'', ''train'', ''validation'']"
| "supported_splits LabeledFacesInTheWildDataset = Some [''test'', ''train'']"
| "supported_splits (CityscapesDataset fine_annos coarse_annos person_annos) =
     Some [''train'', ''test'', ''validation'']"
| "supported_splits (BDD100KDataset source_dir copy_files) =
     Some [''train'', ''validation'', ''test'']"
| "supported_splits (HMDB51Dataset fold_no) = Some [''train'', ''test'', ''other'']"
| "supported_splits (UCF101Dataset fold_no) = Some [''train'', ''test'']"

subsection \<open>\<^verbatim>\<open>QuickstartDataset\<close> and \<^verbatim>\<open>VideoQuickstartDataset\<close>\<close>

definition quickstart_GDRIVE_ID :: string where
  "quickstart_GDRIVE_ID = ''1UWTlFmdq8H-wdJHxVsAKpXBilY1CWwm_''"

definition quickstart_DIR_IN_ZIP :: string where
  "quickstart_DIR_IN_ZIP = ''quickstart''"

definition video_quickstart_GDRIVE_ID :: string where
  "video_quickstart_GDRIVE_ID = ''1O-WMjtiBBMXGEHnnus6y2nSlJu8pY5vo''"

definition video_quickstart_DIR_IN_ZIP :: string where
  "video_quickstart_DIR_IN_ZIP = ''quickstart-video''"

definition quickstart_download_and_prepare ::
  "env \<Rightarrow> path \<Rightarrow> path \<Rightarrow> string option \<Rightarrow> result prog" where
  "quickstart_download_and_prepare e dataset_dir scratch_dir unused =
     bindp (transport
              (Download_google_drive_file quickstart_GDRIVE_ID (scratch_dir @ [''dataset.zip'']))
              (download_google_drive_file e quickstart_GDRIVE_ID (scratch_dir @ [''dataset.zip'']))) (\<lambda>u1.
     bindp (transport
              (Extract_zip (scratch_dir @ [''dataset.zip'']) True)
              (extract_zip e (scratch_dir @ [''dataset.zip'']) True)) (\<lambda>u2.
     bindp (p_move_dir (scratch_dir @ [quickstart_DIR_IN_ZIP]) dataset_dir) (\<lambda>u3.
     bindp (parse (get_classes e FiftyOneDatasetImporter dataset_dir)) (\<lambda>classes.
     bindp (parse (get_num_samples e FiftyOneDatasetImporter dataset_dir)) (\<lambda>num_samples.
     ret (FiftyOneDataset, num_samples, Some classes))))))"

definition video_quickstart_download_and_prepare ::
  "env \<Rightarrow> path \<Rightarrow> path \<Rightarrow> string option \<Rightarrow> result prog" where
  "video_quickstart_download_and_prepare e dataset_dir scratch_dir unused =
     bindp (transport
              (Download_google_drive_file video_quickstart_GDRIVE_ID
                 (scratch_dir @ [''dataset.zip'']))
              (download_google_drive_file e video_quickstart_GDRIVE_ID
                 (scratch_dir @ [''dataset.zip'']))) (\<lambda>u1.
     bindp (transport
              (Extract_zip (scratch_dir @ [''dataset.zip'']) True)
              (extract_zip e (scratch_dir @ [''dataset.zip'']) True)) (\<lambda>u2.
     bindp (p_move_dir (scratch_dir @ [video_quickstart_DIR_IN_ZIP]) dataset_dir) (\<lambda>u3.
     bindp (parse (get_num_samples e FiftyOneVideoLabelsDatasetImporter dataset_dir))
       (\<lambda>num_samples.
     ret (FiftyOneVideoLabelsDataset, num_samples, None)))))"

subsection \<open>\<^verbatim>\<open>COCO2014Dataset\<close> and \<^verbatim>\<open>COCO2017Dataset\<close>\<close>

text \<open>
  The two methods differ in the \<^verbatim>\<open>year\<close> they pass. Neither looks at the file system
  before it downloads.
\<close>

definition coco_download_and_prepare ::
  "string \<Rightarrow> env \<Rightarrow> path \<Rightarrow> path \<Rightarrow> string option \<Rightarrow> result prog" where
  "coco_download_and_prepare year e dataset_dir scratch_dir split =
     bindp (transport
              (Download_coco_dataset_split scratch_dir split year True)
              (download_coco_dataset_split e scratch_dir split year True)) (\<lambda>(images_dir, anno_path).
     bindp (transport
              (Move_dir images_dir (dataset_dir @ [''data'']))
              (move_dir e images_dir (dataset_dir @ [''data'']))) (\<lambda>u1.
     bindp (transport
              (Move_file anno_path (dataset_dir @ [''labels.json'']))
              (move_file e anno_path (dataset_dir @ [''labels.json'']))) (\<lambda>u2.
     bindp (parse (load_coco_detection_annotations e (dataset_dir @ [''labels.json'']))) (\<lambda>(classes, images).
     ret (COCODetectionDataset, int (length images), Some classes)))))"

definition coco2014_download_and_prepare ::
  "env \<Rightarrow> path \<Rightarrow> path \<Rightarrow> string option \<Rightarrow> result prog" where
  "coco2014_download_and_prepare = coco_download_and_prepare ''2014''"

definition coco2017_download_and_prepare ::
  "env \<Rightarrow> path \<Rightarrow> path \<Rightarrow> string option \<Rightarrow> result prog" where
  "coco2017_download_and_prepare = coco_download_and_prepare ''2017''"

subsection \<open>The datasets distributed as one download with all splits\<close>

text \<open>
  \<^verbatim>\<open>
  dataset_dir = os.path.dirname(dataset_dir)  # remove split dir
  split_dir = os.path.join(dataset_dir, split)
  if not os.path.exists(split_dir):
      <download the whole dataset>
  \<close>
  \<open>unless_exists split_dir m\<close> is the \<^verbatim>\<open>if not os.path.exists(split_dir): m\<close>.
\<close>

definition unless_exists :: "path \<Rightarrow> unit prog \<Rightarrow> unit prog" where
  "unless_exists split_dir m w = (if \<not> path_exists (fs w) split_dir then m w else (Inr (), w))"

definition lfw_download_and_prepare ::
  "env \<Rightarrow> path \<Rightarrow> path \<Rightarrow> string option \<Rightarrow> result prog" where
  "lfw_download_and_prepare e dataset_dir0 scratch_dir split =
     (let dataset_dir = path_dirname dataset_dir0 in
      bindp (path_join dataset_dir split) (\<lambda>split_dir.
      bindp (unless_exists split_dir
               (transport (Download_lfw_dataset dataset_dir scratch_dir False)
                          (download_lfw_dataset e dataset_dir scratch_dir False))) (\<lambda>u.
      bindp (parse (get_classes e ImageClassificationDirectoryTreeImporter
                      (dataset_dir @ [''train'']))) (\<lambda>classes_train.
      bindp (parse (get_classes e ImageClassificationDirectoryTreeImporter
                      (dataset_dir @ [''test'']))) (\<lambda>classes_test.
      bindp (parse (get_num_samples e ImageClassificationDirectoryTreeImporter split_dir))
        (\<lambda>num_samples.
      ret (ImageClassificationDirectoryTree, num_samples,
           Some (sort (classes_train @ classes_test)))))))))"

text \<open>
  In \<^verbatim>\<open>CityscapesDataset._download_and_prepare\<close> the body of the \<^verbatim>\<open>if\<close> is a string
  literal: the call of \<^verbatim>\<open>foucs.parse_cityscapes_dataset\<close> is inside triple quotes (and
  the import of \<^verbatim>\<open>foucs\<close> is commented out), so the branch evaluates a constant and does
  nothing.
\<close>

definition cityscapes_download_and_prepare ::
  "bool \<Rightarrow> bool \<Rightarrow> bool \<Rightarrow> env \<Rightarrow> path \<Rightarrow> path \<Rightarrow> string option \<Rightarrow> result prog" where
  "cityscapes_download_and_prepare fine_annos coarse_annos person_annos e dataset_dir0 scratch_dir split =
     (let dataset_dir = path_dirname dataset_dir0 in
      bindp (path_join dataset_dir split) (\<lambda>split_dir.
      bindp (unless_exists split_dir (ret ())) (\<lambda>u.
      bindp (parse (get_classes e FiftyOneDatasetImporter (dataset_dir @ [''train'']))) (\<lambda>classes_train.
      bindp (parse (get_classes e FiftyOneDatasetImporter (dataset_dir @ [''test'']))) (\<lambda>classes_test.
      bindp (parse (get_classes e FiftyOneDatasetImporter (dataset_dir @ [''validation'']))) (\<lambda>classes_validation.
      bindp (parse (get_num_samples e FiftyOneDatasetImporter split_dir)) (\<lambda>num_samples.
      ret (FiftyOneDataset, num_samples,
           Some (sort (classes_train @ classes_test @ classes_validation))))))))))"

text \<open>\<^verbatim>\<open>bdd100k_dir = self.source_dir or scratch_dir\<close>\<close>

definition bdd100k_download_and_prepare ::
  "path option \<Rightarrow> bool \<Rightarrow> env \<Rightarrow> path \<Rightarrow> path \<Rightarrow> string option \<Rightarrow> result prog" where
  "bdd100k_download_and_prepare source_dir copy_files e dataset_dir0 scratch_dir split =
     (let dataset_dir = path_dirname dataset_dir0 in
      bindp (path_join dataset_dir split) (\<lambda>split_dir.
      bindp (unless_exists split_dir
               (let bdd100k_dir = (case source_dir of None \<Rightarrow> scratch_dir | Some d \<Rightarrow> d) in
                transport (Wrangle_bdd100k_download bdd100k_dir dataset_dir copy_files)
                          (wrangle_bdd100k_download e bdd100k_dir dataset_dir copy_files))) (\<lambda>u.
      bindp (parse (get_num_samples e BDDDatasetImporter split_dir)) (\<lambda>num_samples.
      ret (BDDDataset, num_samples, None)))))"

definition hmdb51_download_and_prepare ::
  "int \<Rightarrow> env \<Rightarrow> path \<Rightarrow> path \<Rightarrow> string option \<Rightarrow> result prog" where
  "hmdb51_download_and_prepare fold_no e dataset_dir0 scratch_dir split =
     (let dataset_dir = path_dirname dataset_dir0 in
      bindp (path_join dataset_dir split) (\<lambda>split_dir.
      bindp (unless_exists split_dir
               (transport (Download_hmdb51_dataset dataset_dir scratch_dir fold_no False)
                          (download_hmdb51_dataset e dataset_dir scratch_dir fold_no False))) (\<lambda>u.
      bindp (parse (get_classes e VideoClassificationDirectoryTreeImporter split_dir)) (\<lambda>classes.
      bindp (parse (get_num_samples e VideoClassificationDirectoryTreeImporter split_dir))
        (\<lambda>num_samples.
      ret (VideoClassificationDirectoryTree, num_samples, Some classes))))))"

definition ucf101_download_and_prepare ::
  "int \<Rightarrow> env \<Rightarrow> path \<Rightarrow> path \<Rightarrow> string option \<Rightarrow> result prog" where
  "ucf101_download_and_prepare fold_no e dataset_dir0 scratch_dir split =
     (let dataset_dir = path_dirname dataset_dir0 in
      bindp (path_join dataset_dir split) (\<lambda>split_dir.
      bindp (unless_exists split_dir
               (transport (Download_ucf101_dataset dataset_dir scratch_dir fold_no False)
                          (download_ucf101_dataset e dataset_dir scratch_dir fold_no False))) (\<lambda>u.
      bindp (parse (get_classes e VideoClassificationDirectoryTreeImporter split_dir)) (\<lambda>classes.
      bindp (parse (get_num_samples e VideoClassificationDirectoryTreeImporter split_dir))
        (\<lambda>num_samples.
      ret (VideoClassificationDirectoryTree, num_samples, Some classes))))))"

text \<open>The method of an instance, by its class.\<close>

fun p_download_and_prepare ::
  "env \<Rightarrow> dataset \<Rightarrow> path \<Rightarrow> path \<Rightarrow> string option \<Rightarrow> result prog" where
  "p_download_and_prepare e QuickstartDataset = quickstart_download_and_prepare e"
| "p_download_and_prepare e VideoQuickstartDataset = video_quickstart_download_and_prepare e"
| "p_download_and_prepare e COCO2014Dataset = coco2014_download_and_prepare e"
| "p_download_and_prepare e COCO2017Dataset = coco2017_download_and_prepare e"
| "p_download_and_prepare e LabeledFacesInTheWildDataset = lfw_download_and_prepare e"
| "p_download_and_prepare e (CityscapesDataset fine_annos coarse_annos person_annos) =
     cityscapes_download_and_prepare fine_annos coarse_annos person_annos e"
| "p_download_and_prepare e (BDD100KDataset source_dir copy_files) =
     bdd100k_download_and_prepare source_dir copy_files e"
| "p_download_and_prepare e (HMDB51Dataset fold_no) = hmdb51_download_and_prepare fold_no e"
| "p_download_and_prepare e (UCF101Dataset fold_no) = ucf101_download_and_prepare fold_no e"

subsection \<open>\<^verbatim>\<open>AVAILABLE_DATASETS\<close>\<close>

text \<open>
  The registry maps a name to a class; instantiating a class without arguments takes
  the defaults of its \<^verbatim>\<open>__init__\<close>.
\<close>

datatype dataset_class =
    QuickstartDataset_cls
  | VideoQuickstartDataset_cls
  | COCO2014Dataset_cls
  | COCO2017Dataset_cls
  | LabeledFacesInTheWildDataset_cls
  | CityscapesDataset_cls
  | BDD100KDataset_cls
  | HMDB51Dataset_cls
  | UCF101Dataset_cls

fun instantiate :: "dataset_class \<Rightarrow> dataset" where
  "instantiate QuickstartDataset_cls = QuickstartDataset"
| "instantiate VideoQuickstartDataset_cls = VideoQuickstartDataset"
| "instantiate COCO2014Dataset_cls = COCO2014Dataset"
| "instantiate COCO2017Dataset_cls = COCO2017Dataset"
| "instantiate LabeledFacesInTheWildDataset_cls = LabeledFacesInTheWildDataset"
| "instantiate CityscapesDataset_cls = CityscapesDataset False False False"
| "instantiate BDD100KDataset_cls = BDD100KDataset None True"
| "instantiate HMDB51Dataset_cls = HMDB51Dataset 1"
| "instantiate UCF101Dataset_cls = UCF101Dataset 1"

definition AVAILABLE_DATASETS :: "(string \<times> dataset_class) list" where
  "AVAILABLE_DATASETS =
     [(''quickstart'', QuickstartDataset_cls),
      (''quickstart-video'', VideoQuickstartDataset_cls),
      (''coco-2014-segmentation'', COCO2014Dataset_cls),
      (''coco-2017-segmentation'', COCO2017Dataset_cls),
      (''lfw'', LabeledFacesInTheWildDataset_cls),
      (''cityscapes'', CityscapesDataset_cls),
      (''bdd100k'', BDD100KDataset_cls),
      (''hmdb51'', HMDB51Dataset_cls),
      (''ucf101'', UCF101Dataset_cls)]"

subsection \<open>Vocabulary of the statements\<close>

text \<open>
  The classes whose \<^verbatim>\<open>if not os.path.exists(split_dir):\<close> branch calls a download
  function, and the classes that have that \<^verbatim>\<open>if\<close> at all (the former and
  \<^verbatim>\<open>CityscapesDataset\<close>).
\<close>

fun retrieves :: "dataset \<Rightarrow> bool" where
  "retrieves LabeledFacesInTheWildDataset = True"
| "retrieves (BDD100KDataset source_dir copy_files) = True"
| "retrieves (HMDB51Dataset fold_no) = True"
| "retrieves (UCF101Dataset fold_no) = True"
| "retrieves d = False"

fun whole_bundle :: "dataset \<Rightarrow> bool" where
  "whole_bundle (CityscapesDataset fine_annos coarse_annos person_annos) = True"
| "whole_bundle d = retrieves d"

text \<open>The transport calls that branch makes, as they are logged.\<close>

fun retrieval :: "dataset \<Rightarrow> path \<Rightarrow> path \<Rightarrow> call list" where
  "retrieval LabeledFacesInTheWildDataset dataset_dir scratch_dir =
     [Download_lfw_dataset dataset_dir scratch_dir False]"
| "retrieval (BDD100KDataset source_dir copy_files) dataset_dir scratch_dir =
     [Wrangle_bdd100k_download (case source_dir of None \<Rightarrow> scratch_dir | Some d \<Rightarrow> d)
        dataset_dir copy_files]"
| "retrieval (HMDB51Dataset fold_no) dataset_dir scratch_dir =
     [Download_hmdb51_dataset dataset_dir scratch_dir fold_no False]"
| "retrieval (UCF101Dataset fold_no) dataset_dir scratch_dir =
     [Download_ucf101_dataset dataset_dir scratch_dir fold_no False]"
| "retrieval d dataset_dir scratch_dir = []"

text \<open>The two per-split classes, whose count is read from the annotation file.\<close>

fun coco :: "dataset \<Rightarrow> bool" where
  "coco COCO2014Dataset = True"
| "coco COCO2017Dataset = True"
| "coco d = False"

subsection \<open>The directory scan of a layout\<close>








subsection \<open>The manual download of BDD100K\<close>

text \<open>
  Modelled from the spec: when "the manually downloaded bundle" is there.
  \<^verbatim>\<open>fiftyone.utils.bdd\<close> is not in the sources; the spec speaks of "user-supplied data
  that is absent" and of "no scratch content". The bundle is taken to be the \<^verbatim>\<open>bdd100k/\<close>
  folder of the class's docstring, with its \<^verbatim>\<open>labels/\<close> and \<^verbatim>\<open>images/100k/\<close> directories.
\<close>

definition bundle_present :: "node \<Rightarrow> path \<Rightarrow> bool" where
  "bundle_present t bdd100k_dir =
     (path_isdir t (bdd100k_dir @ [''labels''])
      \<and> path_isdir t (bdd100k_dir @ [''images'', ''100k'']))"

text \<open>
  Modelled from the spec: \<^verbatim>\<open>fiftyone.utils.bdd.wrangle_bdd100k_download\<close>, which is not
  in the sources. The spec's error taxonomy has \<^verbatim>\<open>ManualDownloadRequiredError\<close> for "a
  whole-bundle source needs user-supplied data that is absent", raised by \<^verbatim>\<open>acquire\<close> of
  a dataset "requiring manual download with \<^verbatim>\<open>source_dir=None\<close> and no scratch content".
  What the function does with a bundle that is there stays a parameter.
\<close>

definition wrangle_bdd100k_download_spec ::
  "env \<Rightarrow> path \<Rightarrow> path \<Rightarrow> bool \<Rightarrow> node \<Rightarrow> (error + unit) \<times> node" where
  "wrangle_bdd100k_download_spec e bdd100k_dir dataset_dir copy_files t =
     (if bundle_present t bdd100k_dir
      then wrangle_bdd100k_download e bdd100k_dir dataset_dir copy_files t
      else (Inl ManualDownloadRequiredError, t))"

text \<open>The collaborators, with that function in the place of the parameter.\<close>

definition spec_env :: "env \<Rightarrow> env" where
  "spec_env e = e\<lparr>wrangle_bdd100k_download := wrangle_bdd100k_download_spec e\<rparr>"

subsection \<open>A fake transport and two disks\<close>

text \<open>
  A test double for the collaborators, in the way of the spec's "fake Transport
  Adapter": the COCO download delivers three image files and an annotation file that
  lists two of them, the single-bundle downloads write a \<^verbatim>\<open>train\<close> and a \<^verbatim>\<open>test\<close> tree
  of class folders, the directory-tree parsers list the folders of a directory and count
  the files inside them, and the COCO parser reads one image record per line.
\<close>

definition fake_move :: "path \<Rightarrow> path \<Rightarrow> node \<Rightarrow> (error + unit) \<times> node" where
  "fake_move src dst t =
     (case lookup t src of
        None \<Rightarrow> (Inl FileNotFoundError, t)
      | Some n \<Rightarrow> (Inr (), set_entry dst (Some n) (set_entry src None t)))"

definition fake_bundle :: "path \<Rightarrow> node \<Rightarrow> (error + unit) \<times> node" where
  "fake_bundle dataset_dir t =
     (if path_isdir t dataset_dir then
        (Inr (),
         set_entry (dataset_dir @ [''test''])
           (Some (Dir [(''Cy'', Dir [(''4.jpg'', File [])])]))
           (set_entry (dataset_dir @ [''train''])
              (Some (Dir [(''Bob'', Dir [(''3.jpg'', File [])]),
                          (''Ann'', Dir [(''1.jpg'', File []), (''2.jpg'', File [])])])) t))
      else (Inl FileNotFoundError, t))"

definition fake_scan_classes :: "path \<Rightarrow> node \<Rightarrow> error + string list" where
  "fake_scan_classes p t =
     (case lookup t p of Some (Dir es) \<Rightarrow> Inr (map fst es) | _ \<Rightarrow> Inl FileNotFoundError)"

definition fake_scan_samples :: "path \<Rightarrow> node \<Rightarrow> error + int" where
  "fake_scan_samples p t =
     (case lookup t p of
        Some (Dir es) \<Rightarrow>
          Inr (sum_list (map (\<lambda>(k, n). case n of Dir l \<Rightarrow> int (length l) | File l \<Rightarrow> 0) es))
      | _ \<Rightarrow> Inl FileNotFoundError)"

definition fake_coco_download ::
  "string list \<Rightarrow> path \<Rightarrow> string option \<Rightarrow> string \<Rightarrow> bool \<Rightarrow> node
     \<Rightarrow> (error + path \<times> path) \<times> node" where
  "fake_coco_download listed scratch_dir split year cleanup t =
     (Inr (scratch_dir @ [''images''], scratch_dir @ [''anno.json'']),
      set_entry (scratch_dir @ [''anno.json'']) (Some (File listed))
        (set_entry (scratch_dir @ [''images''])
           (Some (Dir [(''a.jpg'', File []), (''b.jpg'', File []), (''c.jpg'', File [])]))
           t))"

definition fake_env :: env where
  "fake_env =
     \<lparr>download_google_drive_file = (\<lambda>i p t. (Inl (ExternalError ''offline''), t)),
      extract_zip = (\<lambda>p d t. (Inl (ExternalError ''offline''), t)),
      download_coco_dataset_split = fake_coco_download [''a.jpg'', ''b.jpg''],
      move_dir = fake_move,
      move_file = fake_move,
      load_coco_detection_annotations = (\<lambda>p t.
        case lookup t p of
          Some (File l) \<Rightarrow> Inr ([''cat'', ''dog''], l)
        | _ \<Rightarrow> Inl FileNotFoundError),
      download_lfw_dataset = (\<lambda>dataset_dir scratch_dir cleanup. fake_bundle dataset_dir),
      wrangle_bdd100k_download = (\<lambda>bdd100k_dir dataset_dir copy_files. fake_bundle dataset_dir),
      download_hmdb51_dataset = (\<lambda>dataset_dir scratch_dir fold_no cleanup. fake_bundle dataset_dir),
      download_ucf101_dataset = (\<lambda>dataset_dir scratch_dir fold_no cleanup. fake_bundle dataset_dir),
      get_classes = (\<lambda>i. fake_scan_classes),
      get_num_samples = (\<lambda>i. fake_scan_samples)\<rparr>"


text \<open>A fresh disk: the dataset directories are there and empty, and so is the scratch directory.\<close>

definition world0 :: world where
  "world0 =
     \<lparr>fs = Dir [(''zoo'', Dir [(''coco'', Dir [(''train'', Dir [])]),
                              (''lfw'', Dir []),
                              (''cityscapes'', Dir []),
                              (''bdd100k'', Dir [])]),
                (''tmp'', Dir [])],
      calls = []\<rparr>"

text \<open>A disk left by earlier runs: the splits are in place, the scratch directory is empty.\<close>

definition world_cached :: world where
  "world_cached =
     \<lparr>fs = Dir [(''zoo'',
                 Dir [(''coco'',
                       Dir [(''train'',
                             Dir [(''data'', Dir [(''a.jpg'', File []), (''b.jpg'', File [])]),
                                  (''labels.json'', File [''a.jpg'', ''b.jpg''])])]),
                      (''lfw'',
                       Dir [(''train'', Dir [(''Bob'', Dir [(''3.jpg'', File [])]),
                                              (''Ann'', Dir [(''1.jpg'', File [])])]),
                            (''test'', Dir [(''Cy'', Dir [(''4.jpg'', File [])])])]),
                      (''bdd100k'',
                       Dir [(''train'', Dir [(''data'', Dir [(''x.jpg'', File [])])])])]),
                (''tmp'', Dir [])],
      calls = []\<rparr>"

section \<open>The ingestion script \<^verbatim>\<open>examples/datamodel/ingest_data.py\<close>\<close>

text \<open>
  The script reads, for each partition, the fine and the coarse labels (a JSON object
  keyed by relative image path), builds one \<^verbatim>\<open>ImageSample\<close> per key of the fine labels
  and hands the list to \<^verbatim>\<open>dataset.add_samples\<close>. In the model

  \<^item> \<^verbatim>\<open>etas.read_json\<close> is a parameter: a path to the entries of the object, in the
    order of the file, or an error;
  \<^item> \<^verbatim>\<open>random.random()\<close> is a parameter: the sequence of its values, and the state
    counts the draws taken;
  \<^item> the dataset is the list of the samples it holds, and \<^verbatim>\<open>add_samples\<close> appends to it;
  \<^item> paths are strings here, and \<open>os_path_join\<close> is \<^verbatim>\<open>posixpath.join\<close> of two
    arguments; \<^verbatim>\<open>template % partition\<close> fills the one \<^verbatim>\<open>%s\<close> of the file name
    (\<^verbatim>\<open>data_dir\<close> holding no \<^verbatim>\<open>%\<close>).
\<close>

record image_sample =
  filepath :: string
  tags :: "string list"

record ingest_env =
  data_dir :: string
  read_json :: "string \<Rightarrow> error + (string \<times> string) list"
  random_random :: "nat \<Rightarrow> real"

record ingest_state =
  dataset_samples :: "image_sample list"
  draws :: nat

definition os_path_join :: "string \<Rightarrow> string \<Rightarrow> string" where
  "os_path_join a b =
     (if b \<noteq> [] \<and> hd b = CHR ''/'' then b
      else if a = [] \<or> last a = CHR ''/'' then a @ b
      else a @ ''/'' @ b)"

definition partitions :: "string list" where
  "partitions = [''train'', ''test'']"

definition fine_labels_path :: "ingest_env \<Rightarrow> string \<Rightarrow> string" where
  "fine_labels_path e part = os_path_join (data_dir e) (part @ ''_fine.json'')"

definition coarse_labels_path :: "ingest_env \<Rightarrow> string \<Rightarrow> string" where
  "coarse_labels_path e part = os_path_join (data_dir e) (part @ ''_coarse.json'')"

text \<open>
  The list comprehension: one sample per key, in order; each takes one draw, and has
  the second tag when the draw is above 0.7.
\<close>

fun make_samples ::
  "ingest_env \<Rightarrow> string \<Rightarrow> string list \<Rightarrow> nat \<Rightarrow> image_sample list \<times> nat" where
  "make_samples e part [] k = ([], k)"
| "make_samples e part (rel_img_path # rest) k =
     (case make_samples e part rest (Suc k) of
        (samples, k') \<Rightarrow>
          (\<lparr>filepath = os_path_join (data_dir e) rel_img_path,
            tags = [part] @ (if random_random e k > 0.7 then [''rand''] else [])\<rparr>
           # samples, k'))"

text \<open>The \<^verbatim>\<open>for\<close> loop over the partitions; an exception of \<^verbatim>\<open>read_json\<close> ends it.\<close>

fun ingest_partitions ::
  "ingest_env \<Rightarrow> string list \<Rightarrow> ingest_state \<Rightarrow> (error + unit) \<times> ingest_state" where
  "ingest_partitions e [] st = (Inr (), st)"
| "ingest_partitions e (part # rest) st =
     (case read_json e (fine_labels_path e part) of
        Inl x \<Rightarrow> (Inl x, st)
      | Inr fine_labels \<Rightarrow>
          (case read_json e (coarse_labels_path e part) of
             Inl x \<Rightarrow> (Inl x, st)
           | Inr coarse_labels \<Rightarrow>
               (case make_samples e part (map fst fine_labels) (draws st) of
                  (samples, k) \<Rightarrow>
                    ingest_partitions e rest
                      \<lparr>dataset_samples = dataset_samples st @ samples, draws = k\<rparr>)))"

text \<open>The script, started on a dataset that holds \<open>existing\<close>.\<close>

definition ingest_data :: "ingest_env \<Rightarrow> image_sample list \<Rightarrow> (error + unit) \<times> ingest_state" where
  "ingest_data e existing = ingest_partitions e partitions \<lparr>dataset_samples = existing, draws = 0\<rparr>"

text \<open>The tags of a sample of a partition: the partition, and then \<^verbatim>\<open>rand\<close> or nothing.\<close>

definition tagged :: "string \<Rightarrow> image_sample \<Rightarrow> bool" where
  "tagged part s = (tags s = [part] \<or> tags s = [part, ''rand''])"

text \<open>Label files with two and one entries, and a generator whose second draw is 0.9.\<close>

definition fake_ingest_env :: ingest_env where
  "fake_ingest_env =
     \<lparr>data_dir = ''/d'',
      read_json = (\<lambda>p. if p = ''/d/train_fine.json'' then Inr [(''a.png'', ''apple''), (''b.png'', ''bear'')]
                       else if p = ''/d/test_fine.json'' then Inr [(''c.png'', ''cup'')]
                       else Inr []),
      random_random = (\<lambda>k. if k = 1 then 9 / 10 else 1 / 10)\<rparr>"

text \<open>A disk with an extracted archive in the scratch directory.\<close>

definition world_zip :: world where
  "world_zip =
     \<lparr>fs = Dir [(''tmp'',
                 Dir [(''quickstart'',
                       Dir [(''info.json'', File [''{}'']),
                            (''data'', Dir [(''1.jpg'', File [''img''])])])]),
                (''zoo'', Dir [(''quickstart'', Dir [])])],
      calls = []\<rparr>"


section \<open>The registry\<close>

text \<open>
  C7. For every key of \<^verbatim>\<open>AVAILABLE_DATASETS\<close>, the class it maps to, instantiated with
  its default arguments, has that key as its \<^verbatim>\<open>name\<close>.
\<close>

theorem registry_name_is_key:
  "map_of AVAILABLE_DATASETS k = Some c \<Longrightarrow> name (instantiate c) = k"
  by (auto simp: AVAILABLE_DATASETS_def split: if_splits)

theorem registry_name_is_key_witness:
  "map_of AVAILABLE_DATASETS ''bdd100k'' = Some BDD100KDataset_cls
   \<and> name (instantiate BDD100KDataset_cls) = ''bdd100k''"
  using registry_name_is_key [of "''bdd100k''" BDD100KDataset_cls]
  by (simp add: AVAILABLE_DATASETS_def)

section \<open>What a call does to the world\<close>

lemmas dp_defs =
  lfw_download_and_prepare_def cityscapes_download_and_prepare_def
  bdd100k_download_and_prepare_def hmdb51_download_and_prepare_def
  ucf101_download_and_prepare_def

lemmas prog_defs = bindp_def ret_def parse_def path_join_def unless_exists_def transport_def

lemmas fake_defs = fake_env_def fake_coco_download_def fake_move_def fake_bundle_def
  fake_scan_classes_def
  fake_scan_samples_def world0_def world_cached_def path_exists_def path_isdir_def
  path_dirname_def coco2014_download_and_prepare_def coco2017_download_and_prepare_def
  coco_download_and_prepare_def

text \<open>
  With the split directory in place, a single-bundle method leaves the world as it is:
  nothing is logged and the file system is not written.
\<close>

lemma whole_bundle_hit:
  "whole_bundle d \<Longrightarrow> path_exists (fs w) (path_dirname dd @ [s]) \<Longrightarrow>
   snd (p_download_and_prepare e d dd sd (Some s) w) = w"
  by (cases d) (auto simp: dp_defs prog_defs Let_def split: sum.splits prod.splits)

lemma cityscapes_world:
  "snd (cityscapes_download_and_prepare a b c e dd sd split w) = w"
  by (auto simp: dp_defs prog_defs Let_def split: sum.splits prod.splits option.splits)

text \<open>Without it, the four classes with a live download call make that call, once.\<close>

lemma retrieves_miss:
  "retrieves d \<Longrightarrow> \<not> path_exists (fs w) (path_dirname dd @ [s]) \<Longrightarrow>
   calls (snd (p_download_and_prepare e d dd sd (Some s) w))
     = calls w @ retrieval d (path_dirname dd) sd"
  by (cases d) (auto simp: dp_defs prog_defs Let_def split: sum.splits prod.splits)

lemma retrieves_one: "retrieves d \<Longrightarrow> length (retrieval d dataset_dir scratch_dir) = 1"
  by (cases d) simp_all

lemma whole_bundle_calls_le:
  "whole_bundle d \<Longrightarrow>
   length (calls (snd (p_download_and_prepare e d dd sd (Some s) w))) \<le> length (calls w) + 1"
  by (cases d) (auto simp: dp_defs prog_defs Let_def split: sum.splits prod.splits)

text \<open>The trace of transport calls only grows.\<close>

lemma bindp_grows:
  assumes "\<And>w. prefix (calls w) (calls (snd (m w)))"
    and "\<And>x w. prefix (calls w) (calls (snd (k x w)))"
  shows "prefix (calls w) (calls (snd (bindp m k w)))"
proof (cases "m w")
  case (Pair r w')
  have a: "prefix (calls w) (calls w')"
    using assms(1) [of w] Pair by simp
  show ?thesis
  proof (cases r)
    case (Inl x)
    with Pair a show ?thesis by (simp add: bindp_def)
  next
    case (Inr x)
    with Pair have "bindp m k w = k x w'" by (simp add: bindp_def)
    with a assms(2) [of w' x] show ?thesis
      by (metis prefix_order.order_trans)
  qed
qed

lemma transport_grows: "prefix (calls w) (calls (snd (transport c f w)))"
  by (simp add: transport_def split: prod.splits)

lemma parse_grows: "prefix (calls w) (calls (snd (parse f w)))"
  by (simp add: parse_def)

lemma ret_grows: "prefix (calls w) (calls (snd (ret x w)))"
  by (simp add: ret_def)

lemma shutil_move_grows: "prefix (calls w) (calls (snd (shutil_move src dst w)))"
  by (simp add: shutil_move_def split: sum.splits)

lemma move_each_grows: "prefix (calls w) (calls (snd (move_each src dst names w)))"
proof (induction names arbitrary: w)
  case Nil
  show ?case by simp
next
  case (Cons f names)
  obtain r w' where sm: "shutil_move (src @ [f]) dst w = (r, w')"
    by (cases "shutil_move (src @ [f]) dst w")
  have a: "prefix (calls w) (calls w')"
    using shutil_move_grows [of w "src @ [f]" dst] sm by simp
  show ?case
  proof (cases r)
    case (Inl x)
    with sm a show ?thesis by simp
  next
    case (Inr x)
    with sm have "move_each src dst (f # names) w = move_each src dst names w'" by simp
    with a Cons.IH [of w'] show ?thesis
      by (metis prefix_order.order_trans)
  qed
qed

lemma os_listdir_grows: "prefix (calls w) (calls (snd (os_listdir p w)))"
  by (simp add: os_listdir_def split: option.splits node.splits)

lemma p_move_dir_grows: "prefix (calls w) (calls (snd (p_move_dir src dst w)))"
  unfolding p_move_dir_def by (intro bindp_grows os_listdir_grows move_each_grows)

lemma case_prod_grows:
  assumes "\<And>a b w. prefix (calls w) (calls (snd (k a b w)))"
  shows "prefix (calls w) (calls (snd ((case x of (a, b) \<Rightarrow> k a b) w)))"
  using assms by (cases x) simp

lemma transport_first:
  assumes "\<And>x w. prefix (calls w) (calls (snd (k x w)))"
  shows "prefix (calls w @ [c]) (calls (snd (bindp (transport c f) k w)))"
proof (cases "f (fs w)")
  case (Pair r t)
  show ?thesis
  proof (cases r)
    case (Inl x)
    with Pair show ?thesis by (simp add: bindp_def transport_def)
  next
    case (Inr x)
    with Pair have "bindp (transport c f) k w = k x \<lparr>fs = t, calls = calls w @ [c]\<rparr>"
      by (simp add: bindp_def transport_def)
    with assms [of "\<lparr>fs = t, calls = calls w @ [c]\<rparr>" x] show ?thesis by simp
  qed
qed

text \<open>The quickstart and COCO methods start with a download, whatever the disk holds.\<close>

lemma quickstart_first_call:
  "prefix (calls w @ [Download_google_drive_file quickstart_GDRIVE_ID (sd @ [''dataset.zip''])])
     (calls (snd (quickstart_download_and_prepare e dd sd split w)))"
  unfolding quickstart_download_and_prepare_def
  by (intro transport_first bindp_grows transport_grows parse_grows ret_grows p_move_dir_grows)

lemma video_quickstart_first_call:
  "prefix (calls w @ [Download_google_drive_file video_quickstart_GDRIVE_ID (sd @ [''dataset.zip''])])
     (calls (snd (video_quickstart_download_and_prepare e dd sd split w)))"
  unfolding video_quickstart_download_and_prepare_def
  by (intro transport_first bindp_grows transport_grows parse_grows ret_grows p_move_dir_grows)

lemma coco_first_call:
  "prefix (calls w @ [Download_coco_dataset_split sd split year True])
     (calls (snd (coco_download_and_prepare year e dd sd split w)))"
  unfolding coco_download_and_prepare_def
  by (intro transport_first case_prod_grows bindp_grows transport_grows parse_grows ret_grows)

lemma prefix_snoc_neq: "prefix (xs @ [c]) ys \<Longrightarrow> ys \<noteq> xs"
  by (auto simp: prefix_def)

lemma no_check_always_calls:
  "\<not> whole_bundle d \<Longrightarrow> calls (snd (p_download_and_prepare e d dd sd split w)) \<noteq> calls w"
proof (cases d)
  case QuickstartDataset
  then show ?thesis using quickstart_first_call [of w sd e dd split]
    by (simp add: prefix_snoc_neq)
next
  case VideoQuickstartDataset
  then show ?thesis using video_quickstart_first_call [of w sd e dd split]
    by (simp add: prefix_snoc_neq)
next
  case COCO2014Dataset
  then show ?thesis using coco_first_call [of w sd split "''2014''" e dd]
    by (simp add: prefix_snoc_neq coco2014_download_and_prepare_def)
next
  case COCO2017Dataset
  then show ?thesis using coco_first_call [of w sd split "''2017''" e dd]
    by (simp add: prefix_snoc_neq coco2017_download_and_prepare_def)
qed simp_all

section \<open>The claims about \<^verbatim>\<open>_download_and_prepare\<close>\<close>

text \<open>
  C1. On a cache miss every strategy retrieves and populates the split; in particular
  the cityscapes strategy does. The code does not: on the fresh disk, where
  \<^verbatim>\<open>zoo/cityscapes/train\<close> does not exist, the cityscapes method returns the world as it
  was (no transport call, no write), whatever the collaborators are, while the LFW method
  in the same situation calls its download.
\<close>

theorem cityscapes_miss_no_retrieval:
  "\<not> path_exists (fs world0) [''zoo'', ''cityscapes'', ''train'']
   \<and> snd (p_download_and_prepare e (CityscapesDataset False False False)
            [''zoo'', ''cityscapes'', ''train''] [''tmp''] (Some ''train'') world0) = world0
   \<and> calls (snd (p_download_and_prepare e LabeledFacesInTheWildDataset
            [''zoo'', ''lfw'', ''train''] [''tmp''] (Some ''train'') world0))
       = [Download_lfw_dataset [''zoo'', ''lfw''] [''tmp''] False]"
proof -
  have "\<not> path_exists (fs world0) [''zoo'', ''cityscapes'', ''train'']"
    by (simp add: world0_def path_exists_def)
  moreover have "\<not> path_exists (fs world0) (path_dirname [''zoo'', ''lfw'', ''train''] @ [''train''])"
    by (simp add: world0_def path_exists_def path_dirname_def)
  then have "calls (snd (p_download_and_prepare e LabeledFacesInTheWildDataset
            [''zoo'', ''lfw'', ''train''] [''tmp''] (Some ''train'') world0))
       = calls world0
         @ retrieval LabeledFacesInTheWildDataset (path_dirname [''zoo'', ''lfw'', ''train''])
             [''tmp'']"
    by (intro retrieves_miss) simp_all
  ultimately show ?thesis
    by (simp add: cityscapes_world world0_def path_dirname_def)
qed

text \<open>
  C2, as stated, fails: the COCO method, called twice in a row, downloads and moves
  again in the second call although the first call succeeded and left the split's
  \<^verbatim>\<open>data\<close> and \<^verbatim>\<open>labels.json\<close> in place.
\<close>

theorem coco_second_call_retrieves_again:
  "(case p_download_and_prepare fake_env COCO2014Dataset
           [''zoo'', ''coco'', ''train''] [''tmp''] (Some ''train'') world0 of
      (r1, w1) \<Rightarrow>
        r1 = Inr (COCODetectionDataset, 2, Some [''cat'', ''dog''])
        \<and> path_exists (fs w1) [''zoo'', ''coco'', ''train'', ''data'']
        \<and> path_exists (fs w1) [''zoo'', ''coco'', ''train'', ''labels.json'']
        \<and> calls (snd (p_download_and_prepare fake_env COCO2014Dataset
                    [''zoo'', ''coco'', ''train''] [''tmp''] (Some ''train'') w1))
            = calls w1 @
              [Download_coco_dataset_split [''tmp''] (Some ''train'') ''2014'' True,
               Move_dir [''tmp'', ''images''] [''zoo'', ''coco'', ''train'', ''data''],
               Move_file [''tmp'', ''anno.json''] [''zoo'', ''coco'', ''train'', ''labels.json'']])"
  by (simp add: fake_defs prog_defs)

text \<open>
  C2, amended. For a single-bundle class (lfw, cityscapes, bdd100k, hmdb51, ucf101):
  when the split directory exists after the first call, the second call changes nothing
  (no transport call, no write); and for lfw, bdd100k, hmdb51 and ucf101, when the split
  directory was missing before the first call, the two calls together make exactly the one
  retrieval call.
\<close>

theorem whole_bundle_twice_retrieves_once:
  assumes "whole_bundle d"
    and "path_exists (fs (snd (p_download_and_prepare e d dd sd (Some s) w0))) (path_dirname dd @ [s])"
  shows "snd (p_download_and_prepare e d dd sd (Some s)
                (snd (p_download_and_prepare e d dd sd (Some s) w0)))
           = snd (p_download_and_prepare e d dd sd (Some s) w0)
         \<and> (retrieves d \<and> \<not> path_exists (fs w0) (path_dirname dd @ [s]) \<longrightarrow>
              calls (snd (p_download_and_prepare e d dd sd (Some s)
                       (snd (p_download_and_prepare e d dd sd (Some s) w0))))
                = calls w0 @ retrieval d (path_dirname dd) sd
              \<and> length (retrieval d (path_dirname dd) sd) = 1)"
  using assms by (simp add: whole_bundle_hit retrieves_miss retrieves_one)

theorem whole_bundle_twice_retrieves_once_witness:
  "whole_bundle LabeledFacesInTheWildDataset
   \<and> retrieves LabeledFacesInTheWildDataset
   \<and> \<not> path_exists (fs world0) [''zoo'', ''lfw'', ''train'']
   \<and> path_exists (fs (snd (p_download_and_prepare fake_env LabeledFacesInTheWildDataset
         [''zoo'', ''lfw'', ''train''] [''tmp''] (Some ''train'') world0))) [''zoo'', ''lfw'', ''train'']
   \<and> calls (snd (p_download_and_prepare fake_env LabeledFacesInTheWildDataset
         [''zoo'', ''lfw'', ''train''] [''tmp''] (Some ''train'')
         (snd (p_download_and_prepare fake_env LabeledFacesInTheWildDataset
            [''zoo'', ''lfw'', ''train''] [''tmp''] (Some ''train'') world0))))
     = [Download_lfw_dataset [''zoo'', ''lfw''] [''tmp''] False]"
proof -
  have ex: "path_exists (fs (snd (p_download_and_prepare fake_env LabeledFacesInTheWildDataset
         [''zoo'', ''lfw'', ''train''] [''tmp''] (Some ''train'') world0)))
         (path_dirname [''zoo'', ''lfw'', ''train''] @ [''train''])"
    by (simp add: fake_defs prog_defs dp_defs Let_def)
  have miss: "\<not> path_exists (fs world0) (path_dirname [''zoo'', ''lfw'', ''train''] @ [''train''])"
    by (simp add: world0_def path_exists_def path_dirname_def)
  have c0: "calls world0 = []"
    by (simp add: world0_def)
  have wb: "whole_bundle LabeledFacesInTheWildDataset"
    by simp
  from whole_bundle_twice_retrieves_once [OF wb ex, THEN conjunct2] miss c0
  have "calls (snd (p_download_and_prepare fake_env LabeledFacesInTheWildDataset
         [''zoo'', ''lfw'', ''train''] [''tmp''] (Some ''train'')
         (snd (p_download_and_prepare fake_env LabeledFacesInTheWildDataset
            [''zoo'', ''lfw'', ''train''] [''tmp''] (Some ''train'') world0))))
     = [Download_lfw_dataset [''zoo'', ''lfw''] [''tmp''] False]"
    by (simp add: path_dirname_def)
  with miss ex show ?thesis
    by (simp add: path_dirname_def)
qed

text \<open>
  C4. For a single-bundle class, two splits requested in sequence: when the second
  split's directory exists after the first call, the second call leaves the world as the
  first call left it, and the two calls together made at most one transport call.
\<close>

theorem two_splits_one_retrieval:
  assumes "whole_bundle d"
    and "path_exists (fs (snd (p_download_and_prepare e d dd1 sd (Some s1) w0)))
           (path_dirname dd2 @ [s2])"
  shows "snd (p_download_and_prepare e d dd2 sd (Some s2)
                (snd (p_download_and_prepare e d dd1 sd (Some s1) w0)))
           = snd (p_download_and_prepare e d dd1 sd (Some s1) w0)
         \<and> length (calls (snd (p_download_and_prepare e d dd2 sd (Some s2)
                (snd (p_download_and_prepare e d dd1 sd (Some s1) w0)))))
             \<le> length (calls w0) + 1"
  using assms whole_bundle_calls_le [of d e dd1 sd s1 w0]
  by (simp add: whole_bundle_hit)

theorem two_splits_one_retrieval_witness:
  "whole_bundle (HMDB51Dataset 1)
   \<and> path_exists (fs (snd (p_download_and_prepare fake_env (HMDB51Dataset 1)
         [''zoo'', ''lfw'', ''train''] [''tmp''] (Some ''train'') world0))) [''zoo'', ''lfw'', ''test'']
   \<and> calls (snd (p_download_and_prepare fake_env (HMDB51Dataset 1)
         [''zoo'', ''lfw'', ''test''] [''tmp''] (Some ''test'')
         (snd (p_download_and_prepare fake_env (HMDB51Dataset 1)
            [''zoo'', ''lfw'', ''train''] [''tmp''] (Some ''train'') world0))))
     = [Download_hmdb51_dataset [''zoo'', ''lfw''] [''tmp''] 1 False]"
proof -
  have ex: "path_exists (fs (snd (p_download_and_prepare fake_env (HMDB51Dataset 1)
         [''zoo'', ''lfw'', ''train''] [''tmp''] (Some ''train'') world0)))
         (path_dirname [''zoo'', ''lfw'', ''test''] @ [''test''])"
    by (simp add: fake_defs prog_defs dp_defs Let_def)
  have wb: "whole_bundle (HMDB51Dataset 1)"
    by simp
  have first: "calls (snd (p_download_and_prepare fake_env (HMDB51Dataset 1)
         [''zoo'', ''lfw'', ''train''] [''tmp''] (Some ''train'') world0))
     = [Download_hmdb51_dataset [''zoo'', ''lfw''] [''tmp''] 1 False]"
    by (simp add: fake_defs prog_defs dp_defs Let_def)
  from two_splits_one_retrieval [OF wb ex, THEN conjunct1] first
  have "calls (snd (p_download_and_prepare fake_env (HMDB51Dataset 1)
         [''zoo'', ''lfw'', ''test''] [''tmp''] (Some ''test'')
         (snd (p_download_and_prepare fake_env (HMDB51Dataset 1)
            [''zoo'', ''lfw'', ''train''] [''tmp''] (Some ''train'') world0))))
     = [Download_hmdb51_dataset [''zoo'', ''lfw''] [''tmp''] 1 False]"
    by simp
  with ex show ?thesis
    by (simp add: path_dirname_def)
qed








text \<open>
  C6, as stated, fails: on a disk where the COCO split, its \<^verbatim>\<open>data\<close> directory and its
  \<^verbatim>\<open>labels.json\<close> all exist, the COCO method still downloads and moves.
\<close>

theorem coco_retrieves_over_cached_split:
  "path_exists (fs world_cached) [''zoo'', ''coco'', ''train'']
   \<and> path_exists (fs world_cached) [''zoo'', ''coco'', ''train'', ''data'']
   \<and> path_exists (fs world_cached) [''zoo'', ''coco'', ''train'', ''labels.json'']
   \<and> calls world_cached = []
   \<and> calls (snd (p_download_and_prepare fake_env COCO2017Dataset
               [''zoo'', ''coco'', ''train''] [''tmp''] (Some ''train'') world_cached))
       = [Download_coco_dataset_split [''tmp''] (Some ''train'') ''2017'' True,
          Move_dir [''tmp'', ''images''] [''zoo'', ''coco'', ''train'', ''data''],
          Move_file [''tmp'', ''anno.json''] [''zoo'', ''coco'', ''train'', ''labels.json'']]"
  by (simp add: fake_defs prog_defs)

text \<open>
  C6, amended. The classes lfw, bdd100k, hmdb51 and ucf101 own a cache check that
  decides the retrieval: with the split directory in place the call leaves the world as
  it is, without it the call makes the one retrieval call. The cityscapes class, too,
  leaves the world as it is when the split directory is in place. The quickstart and COCO
  classes own none: every call logs a transport call, whatever the disk holds.
\<close>

theorem cache_check_only_in_whole_bundle:
  "(whole_bundle d \<longrightarrow> path_exists (fs w) (path_dirname dd @ [s]) \<longrightarrow>
      snd (p_download_and_prepare e d dd sd (Some s) w) = w)
   \<and> (retrieves d \<longrightarrow> \<not> path_exists (fs w) (path_dirname dd @ [s]) \<longrightarrow>
      calls (snd (p_download_and_prepare e d dd sd (Some s) w))
        = calls w @ retrieval d (path_dirname dd) sd
      \<and> length (retrieval d (path_dirname dd) sd) = 1)
   \<and> (\<not> whole_bundle d \<longrightarrow>
      calls (snd (p_download_and_prepare e d dd sd split w)) \<noteq> calls w)"
  using whole_bundle_hit [of d w dd s e sd] retrieves_miss [of d w dd s e sd]
    retrieves_one [of d "path_dirname dd" sd] no_check_always_calls [of d e dd sd split w]
  by auto

theorem cache_check_only_in_whole_bundle_witness:
  "whole_bundle (UCF101Dataset 1)
   \<and> path_exists (fs world_cached) [''zoo'', ''lfw'', ''test'']
   \<and> snd (p_download_and_prepare fake_env (UCF101Dataset 1)
            [''zoo'', ''lfw'', ''test''] [''tmp''] (Some ''test'') world_cached) = world_cached
   \<and> retrieves (UCF101Dataset 1)
   \<and> \<not> path_exists (fs world0) [''zoo'', ''lfw'', ''test'']
   \<and> calls (snd (p_download_and_prepare fake_env (UCF101Dataset 1)
            [''zoo'', ''lfw'', ''test''] [''tmp''] (Some ''test'') world0))
       = [Download_ucf101_dataset [''zoo'', ''lfw''] [''tmp''] 1 False]
   \<and> \<not> whole_bundle COCO2014Dataset
   \<and> calls (snd (p_download_and_prepare fake_env COCO2014Dataset
            [''zoo'', ''coco'', ''train''] [''tmp''] (Some ''train'') world_cached))
       \<noteq> calls world_cached"
proof -
  have ex: "path_exists (fs world_cached) (path_dirname [''zoo'', ''lfw'', ''test''] @ [''test''])"
    by (simp add: world_cached_def path_exists_def path_dirname_def)
  have miss: "\<not> path_exists (fs world0) (path_dirname [''zoo'', ''lfw'', ''test''] @ [''test''])"
    by (simp add: world0_def path_exists_def path_dirname_def)
  have c0: "calls world0 = []"
    by (simp add: world0_def)
  have a: "snd (p_download_and_prepare fake_env (UCF101Dataset 1)
            [''zoo'', ''lfw'', ''test''] [''tmp''] (Some ''test'') world_cached) = world_cached"
    using cache_check_only_in_whole_bundle [of "UCF101Dataset 1" world_cached
        "[''zoo'', ''lfw'', ''test'']" "''test''" fake_env "[''tmp'']" None] ex
    by simp
  have m: "calls (snd (p_download_and_prepare fake_env (UCF101Dataset 1)
            [''zoo'', ''lfw'', ''test''] [''tmp''] (Some ''test'') world0))
       = [Download_ucf101_dataset [''zoo'', ''lfw''] [''tmp''] 1 False]"
    using cache_check_only_in_whole_bundle [of "UCF101Dataset 1" world0
        "[''zoo'', ''lfw'', ''test'']" "''test''" fake_env "[''tmp'']" None] miss c0
    by (simp add: path_dirname_def)
  have b: "calls (snd (p_download_and_prepare fake_env COCO2014Dataset
            [''zoo'', ''coco'', ''train''] [''tmp''] (Some ''train'') world_cached))
       \<noteq> calls world_cached"
    using cache_check_only_in_whole_bundle [of COCO2014Dataset world_cached
        "[''zoo'', ''coco'', ''train'']" "''train''" fake_env "[''tmp'']" "Some ''train''"]
    by simp
  from ex miss a m b show ?thesis
    by (simp add: path_dirname_def)
qed

text \<open>
  C8. For lfw, on a disk where both \<^verbatim>\<open>train\<close> and \<^verbatim>\<open>test\<close> exist, successful calls for
  the two splits return the same class list: the sorted concatenation of the classes of
  \<^verbatim>\<open>train\<close> and of \<^verbatim>\<open>test\<close>.
\<close>

theorem lfw_classes_independent_of_split:
  assumes "path_exists (fs w) (path_dirname dd1 @ [''train''])"
    and "path_exists (fs w) (path_dirname dd1 @ [''test''])"
    and "path_dirname dd2 = path_dirname dd1"
    and "fst (p_download_and_prepare e LabeledFacesInTheWildDataset dd1 sd1 (Some ''train'') w)
           = Inr (t1, n1, c1)"
    and "fst (p_download_and_prepare e LabeledFacesInTheWildDataset dd2 sd2 (Some ''test'') w)
           = Inr (t2, n2, c2)"
  shows "\<exists>a b. get_classes e ImageClassificationDirectoryTreeImporter
                  (path_dirname dd1 @ [''train'']) (fs w) = Inr a
              \<and> get_classes e ImageClassificationDirectoryTreeImporter
                  (path_dirname dd1 @ [''test'']) (fs w) = Inr b
              \<and> c1 = Some (sort (a @ b)) \<and> c2 = Some (sort (a @ b))
              \<and> sorted (sort (a @ b))"
  using assms
  by (auto simp: lfw_download_and_prepare_def prog_defs Let_def split: sum.splits prod.splits)

theorem lfw_classes_independent_of_split_witness:
  "path_exists (fs world_cached) [''zoo'', ''lfw'', ''train'']
   \<and> path_exists (fs world_cached) [''zoo'', ''lfw'', ''test'']
   \<and> fst (p_download_and_prepare fake_env LabeledFacesInTheWildDataset
            [''zoo'', ''lfw'', ''train''] [''tmp''] (Some ''train'') world_cached)
       = Inr (ImageClassificationDirectoryTree, 2, Some [''Ann'', ''Bob'', ''Cy''])
   \<and> fst (p_download_and_prepare fake_env LabeledFacesInTheWildDataset
            [''zoo'', ''lfw'', ''test''] [''tmp''] (Some ''test'') world_cached)
       = Inr (ImageClassificationDirectoryTree, 1, Some [''Ann'', ''Bob'', ''Cy''])
   \<and> (\<exists>a b. get_classes fake_env ImageClassificationDirectoryTreeImporter
                 [''zoo'', ''lfw'', ''train''] (fs world_cached) = Inr a
             \<and> get_classes fake_env ImageClassificationDirectoryTreeImporter
                 [''zoo'', ''lfw'', ''test''] (fs world_cached) = Inr b
             \<and> [''Ann'', ''Bob'', ''Cy''] = sort (a @ b))"
proof -
  have e1: "path_exists (fs world_cached) (path_dirname [''zoo'', ''lfw'', ''train''] @ [''train''])"
    by (simp add: world_cached_def path_exists_def path_dirname_def)
  have e2: "path_exists (fs world_cached) (path_dirname [''zoo'', ''lfw'', ''train''] @ [''test''])"
    by (simp add: world_cached_def path_exists_def path_dirname_def)
  have d: "path_dirname [''zoo'', ''lfw'', ''test''] = path_dirname [''zoo'', ''lfw'', ''train'']"
    by (simp add: path_dirname_def)
  have r1: "fst (p_download_and_prepare fake_env LabeledFacesInTheWildDataset
            [''zoo'', ''lfw'', ''train''] [''tmp''] (Some ''train'') world_cached)
       = Inr (ImageClassificationDirectoryTree, 2, Some [''Ann'', ''Bob'', ''Cy''])"
    by (simp add: fake_defs prog_defs dp_defs Let_def)
  have r2: "fst (p_download_and_prepare fake_env LabeledFacesInTheWildDataset
            [''zoo'', ''lfw'', ''test''] [''tmp''] (Some ''test'') world_cached)
       = Inr (ImageClassificationDirectoryTree, 1, Some [''Ann'', ''Bob'', ''Cy''])"
    by (simp add: fake_defs prog_defs dp_defs Let_def)
  from lfw_classes_independent_of_split [OF e1 e2 d r1 r2] e1 e2 r1 r2
  show ?thesis
    by (simp add: path_dirname_def)
qed

text \<open>
  C3, as stated, fails: on a disk where the split directory exists, the bdd100k method
  constructed with \<^verbatim>\<open>source_dir=None\<close> succeeds with no bundle in the scratch directory;
  the download function is not called.
\<close>

theorem bdd100k_cached_split_needs_no_bundle:
  "\<not> bundle_present (fs world_cached) [''tmp'']
   \<and> p_download_and_prepare (spec_env fake_env) (BDD100KDataset None True)
       [''zoo'', ''bdd100k'', ''train''] [''tmp''] (Some ''train'') world_cached
     = (Inr (BDDDataset, 1, None), world_cached)"
  by (simp add: fake_defs prog_defs dp_defs Let_def bundle_present_def spec_env_def)

text \<open>
  C3, amended. For bdd100k constructed with \<^verbatim>\<open>source_dir=None\<close>: when the split
  directory does not exist and the bundle is not in the scratch directory, the call
  raises \<^verbatim>\<open>ManualDownloadRequiredError\<close> (from the download function as the spec
  describes it, called on the scratch directory) and writes nothing.
\<close>

theorem bdd100k_manual_download_required:
  assumes "\<not> path_exists (fs w) (path_dirname dd @ [s])"
    and "\<not> bundle_present (fs w) sd"
  shows "p_download_and_prepare (spec_env e) (BDD100KDataset None cf) dd sd (Some s) w
         = (Inl ManualDownloadRequiredError,
            w\<lparr>calls := calls w @ [Wrangle_bdd100k_download sd (path_dirname dd) cf]\<rparr>)"
  using assms
  by (simp add: bdd100k_download_and_prepare_def prog_defs Let_def spec_env_def
      wrangle_bdd100k_download_spec_def)

theorem bdd100k_manual_download_required_witness:
  "\<not> path_exists (fs world0) [''zoo'', ''bdd100k'', ''train'']
   \<and> \<not> bundle_present (fs world0) [''tmp'']
   \<and> fst (p_download_and_prepare (spec_env fake_env) (BDD100KDataset None True)
       [''zoo'', ''bdd100k'', ''train''] [''tmp''] (Some ''train'') world0)
     = Inl ManualDownloadRequiredError"
proof -
  have a: "\<not> path_exists (fs world0) (path_dirname [''zoo'', ''bdd100k'', ''train''] @ [''train''])"
    by (simp add: world0_def path_exists_def path_dirname_def)
  have b: "\<not> bundle_present (fs world0) [''tmp'']"
    by (simp add: world0_def bundle_present_def path_isdir_def)
  from bdd100k_manual_download_required [OF a b, of fake_env True] a b show ?thesis
    by (simp add: path_dirname_def)
qed

section \<open>The file system under \<^verbatim>\<open>_move_dir\<close>\<close>

lemma lookup_append:
  "lookup t (p @ q) = (case lookup t p of None \<Rightarrow> None | Some n \<Rightarrow> lookup n q)"
proof (induction p arbitrary: t)
  case Nil
  show ?case by simp
next
  case (Cons c p)
  show ?case
  proof (cases t)
    case (File l)
    then show ?thesis by simp
  next
    case (Dir es)
    with Cons.IH show ?thesis by (simp split: option.splits)
  qed
qed

lemma lookup_prefix_exists:
  assumes "prefix p q" and "lookup t q \<noteq> None"
  shows "lookup t p \<noteq> None"
proof -
  from assms(1) obtain r where "q = p @ r" by (auto simp: prefix_def)
  with assms(2) show ?thesis by (auto simp: lookup_append split: option.splits)
qed

lemma set_entry_other:
  "\<not> prefix p q \<Longrightarrow> \<not> prefix q p \<Longrightarrow> lookup (set_entry p v t) q = lookup t q"
proof (induction p arbitrary: q t)
  case Nil
  then show ?case by simp
next
  case (Cons c p)
  from Cons.prems obtain d q' where q: "q = d # q'" by (cases q) auto
  show ?case
  proof (cases t)
    case (File l)
    then show ?thesis by simp
  next
    case (Dir es)
    show ?thesis
    proof (cases "d = c")
      case False
      with Dir q show ?thesis
        by (auto simp: AList.update_conv' AList.delete_conv' split: option.splits)
    next
      case True
      with Cons.prems q have np: "\<not> prefix p q'" "\<not> prefix q' p" by auto
      then have "p \<noteq> []" by auto
      with Dir q True Cons.IH [OF np] show ?thesis
        by (auto simp: AList.update_conv' split: option.splits)
    qed
  qed
qed

lemma set_entry_parent:
  "lookup t q = Some (Dir es) \<Longrightarrow>
   lookup (set_entry (q @ [c]) v t) q
     = Some (Dir (case v of None \<Rightarrow> AList.delete c es | Some n \<Rightarrow> AList.update c n es))"
proof (induction q arbitrary: t)
  case Nil
  then show ?case by simp
next
  case (Cons d q)
  show ?case
  proof (cases t)
    case (File l)
    with Cons.prems show ?thesis by simp
  next
    case (Dir ds)
    with Cons.prems obtain m where m: "map_of ds d = Some m" "lookup m q = Some (Dir es)"
      by (auto split: option.splits)
    with Dir Cons.IH [OF m(2)] show ?thesis
      by (simp add: AList.update_conv')
  qed
qed

lemma set_entry_same:
  assumes "lookup t q = Some (Dir es)"
  shows "lookup (set_entry (q @ [c]) v t) (q @ [c]) = v"
  using set_entry_parent [OF assms, of c v]
  by (cases v) (simp_all add: lookup_append AList.update_conv' AList.delete_conv')

lemma set_entry_isdir:
  "\<not> prefix p q \<Longrightarrow> path_isdir t q \<Longrightarrow> path_isdir (set_entry p v t) q"
proof (induction p arbitrary: q t)
  case Nil
  then show ?case by simp
next
  case (Cons c p)
  show ?case
  proof (cases t)
    case (File l)
    with Cons.prems show ?thesis by simp
  next
    case (Dir es)
    show ?thesis
    proof (cases q)
      case Nil
      with Dir show ?thesis
        by (simp add: path_isdir_def split: option.splits)
    next
      case (Cons d q')
      show ?thesis
      proof (cases "d = c")
        case False
        with Dir Cons \<open>path_isdir t q\<close> show ?thesis
          by (auto simp: path_isdir_def AList.update_conv' AList.delete_conv' split: option.splits)
      next
        case True
        with Cons Cons.prems(1) have np: "\<not> prefix p q'" by auto
        then have pne: "p \<noteq> []" by auto
        from Dir Cons True Cons.prems(2) obtain m where m: "map_of es c = Some m" "path_isdir m q'"
          by (auto simp: path_isdir_def split: option.splits)
        from Cons.IH [OF np m(2)] Dir Cons True m pne show ?thesis
          by (simp add: path_isdir_def AList.update_conv')
      qed
    qed
  qed
qed

lemma prefix_snoc_cases:
  "prefix p (q @ [c]) \<Longrightarrow> prefix p q \<or> p = q @ [c]"
  by (auto simp: prefix_snoc)

text \<open>
  One iteration of the loop, with \<open>dst\<close> a directory outside \<open>src\<close> that has no entry
  \<open>f\<close>: the child \<open>f\<close> of \<open>src\<close> becomes the child \<open>f\<close> of \<open>dst\<close>.
\<close>

lemma move_child_step:
  assumes src: "lookup t (src @ [f]) = Some n"
    and dst: "path_isdir t dst"
    and free: "lookup t (dst @ [f]) = None"
    and np: "\<not> prefix src dst"
  shows "shutil_move_fs (src @ [f]) dst t
           = Inr (set_entry (dst @ [f]) (Some n) (set_entry (src @ [f]) None t))"
proof -
  from np have ne: "src \<noteq> dst" by auto
  from np have np1: "\<not> prefix (src @ [f]) dst"
    by (metis prefix_order.order_trans prefix_def)
  then have ne1: "src @ [f] \<noteq> dst" by auto
  have np2: "\<not> prefix (src @ [f]) (dst @ [f])"
  proof
    assume "prefix (src @ [f]) (dst @ [f])"
    then have "prefix (src @ [f]) dst \<or> src @ [f] = dst @ [f]" by (rule prefix_snoc_cases)
    with np1 ne show False by simp
  qed
  from src dst free ne np1 ne1 np2 show ?thesis
    by (simp add: shutil_move_fs_def move_to_def os_rename_def path_exists_def
        split: node.splits)
qed

text \<open>The loop, by induction on the entries still in \<open>src\<close>.\<close>

lemma move_each_all:
  assumes "lookup (fs w) src = Some (Dir es)"
    and "distinct (map fst es)"
    and "path_isdir (fs w) dst"
    and "\<not> prefix src dst"
    and "\<forall>f \<in> fst ` set es. lookup (fs w) (dst @ [f]) = None"
  shows "\<exists>w'. move_each src dst (map fst es) w = (Inr (), w')
           \<and> lookup (fs w') src = Some (Dir [])
           \<and> path_isdir (fs w') dst
           \<and> (\<forall>(f, n) \<in> set es. lookup (fs w') (dst @ [f]) = Some n)
           \<and> (\<forall>q. (\<forall>f \<in> fst ` set es.
                      \<not> prefix (src @ [f]) q \<and> \<not> prefix q (src @ [f])
                      \<and> \<not> prefix (dst @ [f]) q \<and> \<not> prefix q (dst @ [f]))
                    \<longrightarrow> lookup (fs w') q = lookup (fs w) q)
           \<and> calls w' = calls w @ map (\<lambda>f. Shutil_move (src @ [f]) dst) (map fst es)"
  using assms
proof (induction es arbitrary: w)
  case Nil
  then show ?case by simp
next
  case (Cons x es)
  obtain f n where x: "x = (f, n)" by (cases x)
  let ?ta = "fs w"
  let ?tb = "set_entry (src @ [f]) None ?ta"
  let ?tc = "set_entry (dst @ [f]) (Some n) ?tb"
  let ?wc = "\<lparr>fs = ?tc, calls = calls w @ [Shutil_move (src @ [f]) dst]\<rparr>"
  from Cons.prems x have srcdir: "lookup ?ta src = Some (Dir ((f, n) # es))" by simp
  from Cons.prems x have fnew: "f \<notin> fst ` set es" and dist: "distinct (map fst es)" by auto
  from srcdir have child: "lookup ?ta (src @ [f]) = Some n"
    by (simp add: lookup_append)
  from Cons.prems x have free: "lookup ?ta (dst @ [f]) = None" by simp
  note np = \<open>\<not> prefix src dst\<close>
  have step: "shutil_move_fs (src @ [f]) dst ?ta = Inr ?tc"
    using child \<open>path_isdir (fs w) dst\<close> free np by (rule move_child_step)
  \<comment> \<open>the paths involved are apart\<close>
  have a1: "\<not> prefix (dst @ [g]) src" if "lookup ?ta (dst @ [g]) = None" for g
    using lookup_prefix_exists [of "dst @ [g]" src ?ta] that srcdir by auto
  have a2: "\<not> prefix src (dst @ [g])" if "lookup ?ta (dst @ [g]) = None" for g
  proof
    assume "prefix src (dst @ [g])"
    then have "prefix src dst \<or> src = dst @ [g]" by (rule prefix_snoc_cases)
    with np that srcdir show False by auto
  qed
  have np1: "\<not> prefix (src @ [g]) dst" for g
    using np by (metis prefix_order.order_trans prefix_def)
  have b1: "\<not> prefix (src @ [g]) (dst @ [h])" for g h
  proof
    assume "prefix (src @ [g]) (dst @ [h])"
    then have "prefix (src @ [g]) dst \<or> src @ [g] = dst @ [h]" by (rule prefix_snoc_cases)
    with np1 np show False by auto
  qed
  have b2: "\<not> prefix (dst @ [h]) (src @ [g])" if "lookup ?ta (dst @ [h]) = None" for g h
  proof
    assume "prefix (dst @ [h]) (src @ [g])"
    then have "prefix (dst @ [h]) src \<or> dst @ [h] = src @ [g]" by (rule prefix_snoc_cases)
    with a1 [OF that] np show False by auto
  qed
  \<comment> \<open>the state after the first move\<close>
  have src0: "lookup ?tb src = Some (Dir es)"
    using set_entry_parent [OF srcdir, of f None] fnew by simp
  have src1: "lookup ?tc src = Some (Dir es)"
    using set_entry_other [OF a1 [OF free] a2 [OF free], of "Some n" ?tb] src0 by simp
  have dst0: "path_isdir ?tb dst"
    using np1 \<open>path_isdir (fs w) dst\<close> by (rule set_entry_isdir)
  have dst1: "path_isdir ?tc dst"
    using _ dst0 by (rule set_entry_isdir) simp
  from dst0 obtain ds where ds: "lookup ?tb dst = Some (Dir ds)"
    by (auto simp: path_isdir_def split: option.splits node.splits)
  have moved: "lookup ?tc (dst @ [f]) = Some n"
    using ds by (rule set_entry_same)
  have free1: "\<forall>g \<in> fst ` set es. lookup ?tc (dst @ [g]) = None"
  proof
    fix g assume g: "g \<in> fst ` set es"
    with fnew have gf: "g \<noteq> f" by auto
    from g Cons.prems(5) have fg: "lookup ?ta (dst @ [g]) = None" by auto
    have "lookup ?tc (dst @ [g]) = lookup ?tb (dst @ [g])"
      using gf by (intro set_entry_other) auto
    also have "\<dots> = lookup ?ta (dst @ [g])"
      using b1 [of f g] b2 [OF fg, of f] by (intro set_entry_other) auto
    finally show "lookup ?tc (dst @ [g]) = None" using fg by simp
  qed
  from Cons.IH [of ?wc] src1 dist dst1 np free1
  obtain w' where w': "move_each src dst (map fst es) ?wc = (Inr (), w')"
    and r1: "lookup (fs w') src = Some (Dir [])"
    and r2: "path_isdir (fs w') dst"
    and r3: "\<forall>(g, m) \<in> set es. lookup (fs w') (dst @ [g]) = Some m"
    and r4: "\<forall>q. (\<forall>g \<in> fst ` set es.
                      \<not> prefix (src @ [g]) q \<and> \<not> prefix q (src @ [g])
                      \<and> \<not> prefix (dst @ [g]) q \<and> \<not> prefix q (dst @ [g]))
                    \<longrightarrow> lookup (fs w') q = lookup ?tc q"
    and r5: "calls w' = calls ?wc @ map (\<lambda>g. Shutil_move (src @ [g]) dst) (map fst es)"
    by auto
  have run: "move_each src dst (map fst (x # es)) w = (Inr (), w')"
    using step w' x by (simp add: shutil_move_def)
  have keep: "lookup (fs w') (dst @ [f]) = Some n"
  proof -
    have "\<forall>g \<in> fst ` set es.
            \<not> prefix (src @ [g]) (dst @ [f]) \<and> \<not> prefix (dst @ [f]) (src @ [g])
            \<and> \<not> prefix (dst @ [g]) (dst @ [f]) \<and> \<not> prefix (dst @ [f]) (dst @ [g])"
      using b1 b2 [OF free] fnew by auto
    with r4 moved show ?thesis by simp
  qed
  have frame: "lookup (fs w') q = lookup ?ta q"
    if q: "\<forall>g \<in> fst ` set (x # es).
             \<not> prefix (src @ [g]) q \<and> \<not> prefix q (src @ [g])
             \<and> \<not> prefix (dst @ [g]) q \<and> \<not> prefix q (dst @ [g])" for q
  proof -
    from q x have qf: "\<not> prefix (src @ [f]) q" "\<not> prefix q (src @ [f])"
      "\<not> prefix (dst @ [f]) q" "\<not> prefix q (dst @ [f])" by auto
    from q r4 have "lookup (fs w') q = lookup ?tc q" by simp
    also have "\<dots> = lookup ?tb q" using qf by (intro set_entry_other)
    also have "\<dots> = lookup ?ta q" using qf by (intro set_entry_other)
    finally show ?thesis .
  qed
  from run r1 r2 r3 keep frame r5 x show ?case
    by auto
qed

text \<open>
  C9, as stated, fails when \<open>dst\<close> does not exist: \<^verbatim>\<open>shutil.move\<close> then renames the
  entry to \<open>dst\<close> itself. With one file \<^verbatim>\<open>1.jpg\<close> in \<open>src\<close>, the call returns normally,
  \<open>dst\<close> is that file and holds no entry \<^verbatim>\<open>1.jpg\<close>.
\<close>

theorem move_dir_into_missing_dst:
  "lookup (fs world_zip) [''tmp'', ''quickstart'', ''data''] = Some (Dir [(''1.jpg'', File [''img''])])
   \<and> \<not> path_exists (fs world_zip) [''zoo'', ''new'']
   \<and> (case p_move_dir [''tmp'', ''quickstart'', ''data''] [''zoo'', ''new''] world_zip of
        (r, w) \<Rightarrow>
          r = Inr ()
          \<and> lookup (fs w) [''zoo'', ''new''] = Some (File [''img''])
          \<and> \<not> path_exists (fs w) [''zoo'', ''new'', ''1.jpg''])"
  by (simp add: world_zip_def path_exists_def path_isdir_def p_move_dir_def bindp_def
      os_listdir_def shutil_move_def shutil_move_fs_def move_to_def os_rename_def)

text \<open>
  C9, amended. When \<open>src\<close> is a directory (with entries of distinct names, as on a
  disk) and \<open>dst\<close> is an existing directory that is neither \<open>src\<close> nor inside it and
  has no entry named as an entry of \<open>src\<close>, \<^verbatim>\<open>_move_dir(src, dst)\<close> returns normally
  and afterwards \<open>src\<close> is still a directory and is empty, \<open>dst\<close> is a directory that
  holds every entry \<open>src\<close> held, unchanged and under its name, the other entries of
  \<open>dst\<close> are as they were (but for the one that holds \<open>src\<close>, if any), and one
  \<^verbatim>\<open>shutil.move\<close> was made per entry.
\<close>

theorem move_dir_moves_children:
  assumes "lookup (fs w) src = Some (Dir es)"
    and "distinct (map fst es)"
    and "path_isdir (fs w) dst"
    and "\<not> prefix src dst"
    and "\<forall>f \<in> fst ` set es. \<not> path_exists (fs w) (dst @ [f])"
  shows "\<exists>w'. p_move_dir src dst w = (Inr (), w')
           \<and> lookup (fs w') src = Some (Dir [])
           \<and> path_isdir (fs w') dst
           \<and> (\<forall>(f, n) \<in> set es. lookup (fs w') (dst @ [f]) = Some n)
           \<and> (\<forall>g. g \<notin> fst ` set es \<and> \<not> prefix (dst @ [g]) src
                  \<longrightarrow> lookup (fs w') (dst @ [g]) = lookup (fs w) (dst @ [g]))
           \<and> calls w' = calls w @ map (\<lambda>f. Shutil_move (src @ [f]) dst) (map fst es)"
proof -
  from assms(5) have free: "\<forall>f \<in> fst ` set es. lookup (fs w) (dst @ [f]) = None"
    by (simp add: path_exists_def)
  from move_each_all [OF assms(1-4) free]
  obtain w' where run: "move_each src dst (map fst es) w = (Inr (), w')"
    and r1: "lookup (fs w') src = Some (Dir [])"
    and r2: "path_isdir (fs w') dst"
    and r3: "\<forall>(f, n) \<in> set es. lookup (fs w') (dst @ [f]) = Some n"
    and r4: "\<forall>q. (\<forall>f \<in> fst ` set es.
                      \<not> prefix (src @ [f]) q \<and> \<not> prefix q (src @ [f])
                      \<and> \<not> prefix (dst @ [f]) q \<and> \<not> prefix q (dst @ [f]))
                    \<longrightarrow> lookup (fs w') q = lookup (fs w) q"
    and r5: "calls w' = calls w @ map (\<lambda>f. Shutil_move (src @ [f]) dst) (map fst es)"
    by blast
  have all: "p_move_dir src dst w = (Inr (), w')"
    using assms(1) run by (simp add: p_move_dir_def bindp_def os_listdir_def)
  have rest: "lookup (fs w') (dst @ [g]) = lookup (fs w) (dst @ [g])"
    if g: "g \<notin> fst ` set es" and anc: "\<not> prefix (dst @ [g]) src" for g
  proof -
    have "\<not> prefix (src @ [f]) (dst @ [g]) \<and> \<not> prefix (dst @ [g]) (src @ [f])
          \<and> \<not> prefix (dst @ [f]) (dst @ [g]) \<and> \<not> prefix (dst @ [g]) (dst @ [f])"
      if f: "f \<in> fst ` set es" for f
    proof -
      from f g have fg: "f \<noteq> g" by auto
      from assms(4) have sd: "src \<noteq> dst" by auto
      have "\<not> prefix (src @ [f]) dst"
        using assms(4) by (metis prefix_order.order_trans prefix_def)
      then have 1: "\<not> prefix (src @ [f]) (dst @ [g])"
        using sd by (auto dest!: prefix_snoc_cases)
      have 2: "\<not> prefix (dst @ [g]) (src @ [f])"
        using anc sd by (auto dest!: prefix_snoc_cases)
      from 1 2 fg show ?thesis by auto
    qed
    with r4 show ?thesis by blast
  qed
  from all r1 r2 r3 rest r5 show ?thesis
    by blast
qed

theorem move_dir_moves_children_witness:
  "lookup (fs world_zip) [''tmp'', ''quickstart'']
     = Some (Dir [(''info.json'', File [''{}'']), (''data'', Dir [(''1.jpg'', File [''img''])])])
   \<and> path_isdir (fs world_zip) [''zoo'', ''quickstart'']
   \<and> \<not> prefix [''tmp'', ''quickstart''] [''zoo'', ''quickstart'']
   \<and> \<not> path_exists (fs world_zip) [''zoo'', ''quickstart'', ''info.json'']
   \<and> \<not> path_exists (fs world_zip) [''zoo'', ''quickstart'', ''data'']
   \<and> (\<exists>w'. p_move_dir [''tmp'', ''quickstart''] [''zoo'', ''quickstart''] world_zip = (Inr (), w')
          \<and> lookup (fs w') [''tmp'', ''quickstart''] = Some (Dir [])
          \<and> lookup (fs w') [''zoo'', ''quickstart'', ''info.json''] = Some (File [''{}''])
          \<and> lookup (fs w') [''zoo'', ''quickstart'', ''data'']
               = Some (Dir [(''1.jpg'', File [''img''])])
          \<and> calls w' = [Shutil_move [''tmp'', ''quickstart'', ''info.json''] [''zoo'', ''quickstart''],
                         Shutil_move [''tmp'', ''quickstart'', ''data''] [''zoo'', ''quickstart'']])"
proof -
  have a: "lookup (fs world_zip) [''tmp'', ''quickstart'']
     = Some (Dir [(''info.json'', File [''{}'']), (''data'', Dir [(''1.jpg'', File [''img''])])])"
    by (simp add: world_zip_def)
  have b: "distinct (map fst [(''info.json'', File [''{}'']),
                              (''data'', Dir [(''1.jpg'', File [''img''])])])"
    by simp
  have c: "path_isdir (fs world_zip) [''zoo'', ''quickstart'']"
    by (simp add: world_zip_def path_isdir_def)
  have d: "\<not> prefix [''tmp'', ''quickstart''] [''zoo'', ''quickstart'']"
    by simp
  have e: "\<forall>f \<in> fst ` set [(''info.json'', File [''{}'']),
                              (''data'', Dir [(''1.jpg'', File [''img''])])].
             \<not> path_exists (fs world_zip) ([''zoo'', ''quickstart''] @ [f])"
    by (simp add: world_zip_def path_exists_def)
  have c0: "calls world_zip = []"
    by (simp add: world_zip_def)
  from move_dir_moves_children [OF a b c d e] c0
  have "\<exists>w'. p_move_dir [''tmp'', ''quickstart''] [''zoo'', ''quickstart''] world_zip = (Inr (), w')
          \<and> lookup (fs w') [''tmp'', ''quickstart''] = Some (Dir [])
          \<and> lookup (fs w') [''zoo'', ''quickstart'', ''info.json''] = Some (File [''{}''])
          \<and> lookup (fs w') [''zoo'', ''quickstart'', ''data'']
               = Some (Dir [(''1.jpg'', File [''img''])])
          \<and> calls w' = [Shutil_move [''tmp'', ''quickstart'', ''info.json''] [''zoo'', ''quickstart''],
                         Shutil_move [''tmp'', ''quickstart'', ''data''] [''zoo'', ''quickstart'']]"
    by auto
  with a c d e show ?thesis
    by simp
qed

section \<open>The ingestion script\<close>

lemma make_samples_spec:
  "make_samples e part keys k = (samples, k') \<Longrightarrow>
   map filepath samples = map (os_path_join (data_dir e)) keys
   \<and> list_all (tagged part) samples
   \<and> k' = k + length keys"
proof (induction keys arbitrary: k samples k')
  case Nil
  then show ?case by simp
next
  case (Cons a keys)
  obtain ss kk where r: "make_samples e part keys (Suc k) = (ss, kk)"
    by (cases "make_samples e part keys (Suc k)")
  from Cons.IH [OF r] Cons.prems r show ?case
    by (auto simp: tagged_def)
qed

text \<open>
  C10. When the script runs to its end, the dataset holds what it held, then one sample
  per entry of the fine labels of \<^verbatim>\<open>train\<close>, in their order, then one per entry of the
  fine labels of \<^verbatim>\<open>test\<close>; the tags of each start with the partition's name, followed by
  \<^verbatim>\<open>rand\<close> or by nothing.
\<close>

theorem ingest_adds_one_sample_per_entry:
  assumes "ingest_data e existing = (Inr (), st)"
  shows "\<exists>fine_train fine_test added_train added_test.
           read_json e (fine_labels_path e ''train'') = Inr fine_train
         \<and> read_json e (fine_labels_path e ''test'') = Inr fine_test
         \<and> dataset_samples st = existing @ added_train @ added_test
         \<and> map filepath added_train = map (os_path_join (data_dir e)) (map fst fine_train)
         \<and> map filepath added_test = map (os_path_join (data_dir e)) (map fst fine_test)
         \<and> list_all (\<lambda>s. tags s \<noteq> [] \<and> hd (tags s) = ''train'' \<and> tagged ''train'' s) added_train
         \<and> list_all (\<lambda>s. tags s \<noteq> [] \<and> hd (tags s) = ''test'' \<and> tagged ''test'' s) added_test"
proof -
  from assms obtain ft ct where ft: "read_json e (fine_labels_path e ''train'') = Inr ft"
    and ct: "read_json e (coarse_labels_path e ''train'') = Inr ct"
    by (auto simp: ingest_data_def partitions_def split: sum.splits)
  obtain s1 k1 where m1: "make_samples e ''train'' (map fst ft) 0 = (s1, k1)"
    by (cases "make_samples e ''train'' (map fst ft) 0")
  from assms ft ct m1 obtain fe ce where fe: "read_json e (fine_labels_path e ''test'') = Inr fe"
    and ce: "read_json e (coarse_labels_path e ''test'') = Inr ce"
    by (auto simp: ingest_data_def partitions_def split: sum.splits)
  obtain s2 k2 where m2: "make_samples e ''test'' (map fst fe) k1 = (s2, k2)"
    by (cases "make_samples e ''test'' (map fst fe) k1")
  from assms ft ct m1 fe ce m2 have st: "dataset_samples st = existing @ s1 @ s2"
    by (auto simp: ingest_data_def partitions_def)
  have t: "list_all (tagged p) ss \<Longrightarrow> list_all (\<lambda>s. tags s \<noteq> [] \<and> hd (tags s) = p \<and> tagged p s) ss"
    for p ss
    by (induction ss) (auto simp: tagged_def)
  from make_samples_spec [OF m1] make_samples_spec [OF m2] ft fe st t show ?thesis
    by blast
qed

theorem ingest_adds_one_sample_per_entry_witness:
  "ingest_data fake_ingest_env []
     = (Inr (),
        \<lparr>dataset_samples =
           [\<lparr>filepath = ''/d/a.png'', tags = [''train'']\<rparr>,
            \<lparr>filepath = ''/d/b.png'', tags = [''train'', ''rand'']\<rparr>,
            \<lparr>filepath = ''/d/c.png'', tags = [''test'']\<rparr>],
         draws = 3\<rparr>)
   \<and> (\<exists>fine_train fine_test added_train added_test.
           read_json fake_ingest_env (fine_labels_path fake_ingest_env ''train'') = Inr fine_train
         \<and> read_json fake_ingest_env (fine_labels_path fake_ingest_env ''test'') = Inr fine_test
         \<and> [\<lparr>filepath = ''/d/a.png'', tags = [''train'']\<rparr>,
             \<lparr>filepath = ''/d/b.png'', tags = [''train'', ''rand'']\<rparr>,
             \<lparr>filepath = ''/d/c.png'', tags = [''test'']\<rparr>] = added_train @ added_test
         \<and> length added_train = length fine_train
         \<and> length added_test = length fine_test
         \<and> list_all (\<lambda>s. hd (tags s) = ''train'') added_train
         \<and> list_all (\<lambda>s. hd (tags s) = ''test'') added_test)"
proof -
  have r: "ingest_data fake_ingest_env []
     = (Inr (),
        \<lparr>dataset_samples =
           [\<lparr>filepath = ''/d/a.png'', tags = [''train'']\<rparr>,
            \<lparr>filepath = ''/d/b.png'', tags = [''train'', ''rand'']\<rparr>,
            \<lparr>filepath = ''/d/c.png'', tags = [''test'']\<rparr>],
         draws = 3\<rparr>)"
    by (simp add: ingest_data_def partitions_def fake_ingest_env_def fine_labels_path_def
        coarse_labels_path_def os_path_join_def)
  from ingest_adds_one_sample_per_entry [OF r]
  obtain fine_train fine_test added_train added_test where
    a: "read_json fake_ingest_env (fine_labels_path fake_ingest_env ''train'') = Inr fine_train"
      "read_json fake_ingest_env (fine_labels_path fake_ingest_env ''test'') = Inr fine_test"
      "[\<lparr>filepath = ''/d/a.png'', tags = [''train'']\<rparr>,
        \<lparr>filepath = ''/d/b.png'', tags = [''train'', ''rand'']\<rparr>,
        \<lparr>filepath = ''/d/c.png'', tags = [''test'']\<rparr>] = added_train @ added_test"
    and b: "map filepath added_train
              = map (os_path_join (data_dir fake_ingest_env)) (map fst fine_train)"
      "map filepath added_test
              = map (os_path_join (data_dir fake_ingest_env)) (map fst fine_test)"
    and c: "list_all (\<lambda>s. tags s \<noteq> [] \<and> hd (tags s) = ''train'' \<and> tagged ''train'' s) added_train"
      "list_all (\<lambda>s. tags s \<noteq> [] \<and> hd (tags s) = ''test'' \<and> tagged ''test'' s) added_test"
    by auto
  from b have l: "length added_train = length fine_train" "length added_test = length fine_test"
    by (metis length_map)+
  from c have h: "list_all (\<lambda>s. hd (tags s) = ''train'') added_train"
    "list_all (\<lambda>s. hd (tags s) = ''test'') added_test"
    by (simp_all add: list_all_iff)
  from r a l h show ?thesis
    by blast
qed

end
